theory Spec2Isabelle
  imports Complex_Main
begin

section \<open>Landmark data and the keypoint extractors\<close>

text \<open>
  The extraction engine hands every result callback an object with one property per
  landmark group. A property is either absent (\<open>undefined\<close>, the group was not
  detected) or an array of landmarks; the extractors test it with \<open>if (results.g)\<close>,
  and every array, also an empty one, is truthy. So a group is a
  \<^typ>\<open>'a list option\<close>. The coordinates are JavaScript numbers; the extractors only copy
  them, so they are modelled as reals and no arithmetic on them is used.
\<close>

record landmark =
  lm_x :: real
  lm_y :: real
  lm_z :: real

type_synonym triple = "real \<times> real \<times> real"

record results =
  poseLandmarks :: "landmark list option"
  faceLandmarks :: "landmark list option"
  leftHandLandmarks :: "landmark list option"
  rightHandLandmarks :: "landmark list option"

text \<open>\<open>landmarks.forEach(l => keypoints.push([l.x, l.y, l.z]))\<close>\<close>

definition pushLandmarks :: "landmark list \<Rightarrow> triple list \<Rightarrow> triple list" where
  "pushLandmarks lms keypoints = keypoints @ map (\<lambda>l. (lm_x l, lm_y l, lm_z l)) lms"

text \<open>\<open>for (let i = 0; i < n; i++) keypoints.push([0, 0, 0])\<close>\<close>

definition pushZeros :: "nat \<Rightarrow> triple list \<Rightarrow> triple list" where
  "pushZeros n keypoints = keypoints @ replicate n (0, 0, 0)"

text \<open>
  The helper \<open>addPoints(landmarks, count)\<close> of the video processor's
  \<open>handleResults\<close>; the other three extractors write the same conditional out once per
  group.
\<close>

definition addPoints :: "landmark list option \<Rightarrow> nat \<Rightarrow> triple list \<Rightarrow> triple list" where
  "addPoints landmarks count keypoints =
     (case landmarks of
        Some lms \<Rightarrow> pushLandmarks lms keypoints
      | None \<Rightarrow> pushZeros count keypoints)"

text \<open>\<open>extractKeypoints\<close> of the live interface: pose, face, left hand, right hand.\<close>

definition extractKeypoints_DeafUserInterface :: "results \<Rightarrow> triple list" where
  "extractKeypoints_DeafUserInterface r =
     (let keypoints = [];
          keypoints = (case poseLandmarks r of
                         Some lms \<Rightarrow> pushLandmarks lms keypoints
                       | None \<Rightarrow> pushZeros 33 keypoints);
          keypoints = (case faceLandmarks r of
                         Some lms \<Rightarrow> pushLandmarks lms keypoints
                       | None \<Rightarrow> pushZeros 468 keypoints);
          keypoints = (case leftHandLandmarks r of
                         Some lms \<Rightarrow> pushLandmarks lms keypoints
                       | None \<Rightarrow> pushZeros 21 keypoints);
          keypoints = (case rightHandLandmarks r of
                         Some lms \<Rightarrow> pushLandmarks lms keypoints
                       | None \<Rightarrow> pushZeros 21 keypoints)
      in keypoints)"

text \<open>\<open>extractKeypoints\<close> of the dataset processor: pose, face, left hand, right hand.\<close>

definition extractKeypoints_DatasetProcessor :: "results \<Rightarrow> triple list" where
  "extractKeypoints_DatasetProcessor r =
     (let keypoints = [];
          keypoints = (case poseLandmarks r of
                         Some lms \<Rightarrow> pushLandmarks lms keypoints
                       | None \<Rightarrow> pushZeros 33 keypoints);
          keypoints = (case faceLandmarks r of
                         Some lms \<Rightarrow> pushLandmarks lms keypoints
                       | None \<Rightarrow> pushZeros 468 keypoints);
          keypoints = (case leftHandLandmarks r of
                         Some lms \<Rightarrow> pushLandmarks lms keypoints
                       | None \<Rightarrow> pushZeros 21 keypoints);
          keypoints = (case rightHandLandmarks r of
                         Some lms \<Rightarrow> pushLandmarks lms keypoints
                       | None \<Rightarrow> pushZeros 21 keypoints)
      in keypoints)"

text \<open>
  \<open>MediaPipeService.extractKeypoints\<close>: pose, left hand, right hand, and the face
  group last.
\<close>

definition extractKeypoints_MediaPipeService :: "results \<Rightarrow> triple list" where
  "extractKeypoints_MediaPipeService r =
     (let keypoints = [];
          keypoints = (case poseLandmarks r of
                         Some lms \<Rightarrow> pushLandmarks lms keypoints
                       | None \<Rightarrow> pushZeros 33 keypoints);
          keypoints = (case leftHandLandmarks r of
                         Some lms \<Rightarrow> pushLandmarks lms keypoints
                       | None \<Rightarrow> pushZeros 21 keypoints);
          keypoints = (case rightHandLandmarks r of
                         Some lms \<Rightarrow> pushLandmarks lms keypoints
                       | None \<Rightarrow> pushZeros 21 keypoints);
          keypoints = (case faceLandmarks r of
                         Some lms \<Rightarrow> pushLandmarks lms keypoints
                       | None \<Rightarrow> pushZeros 468 keypoints)
      in keypoints)"

text \<open>
  The keypoints built by \<open>handleResults\<close> of the video processor: four calls of
  \<open>addPoints\<close>, again with the face group last.
\<close>

definition extractKeypoints_VideoProcessor :: "results \<Rightarrow> triple list" where
  "extractKeypoints_VideoProcessor r =
     (let keypoints = [];
          keypoints = addPoints (poseLandmarks r) 33 keypoints;
          keypoints = addPoints (leftHandLandmarks r) 21 keypoints;
          keypoints = addPoints (rightHandLandmarks r) 21 keypoints;
          keypoints = addPoints (faceLandmarks r) 468 keypoints
      in keypoints)"

text \<open>
  What the engine delivers: a detected group has the cardinality of its kind (33 pose,
  468 face with \<open>refineFaceLandmarks: false\<close> as every component configures it, 21 per
  hand).
\<close>

definition group_ok :: "nat \<Rightarrow> landmark list option \<Rightarrow> bool" where
  "group_ok n g = (case g of None \<Rightarrow> True | Some lms \<Rightarrow> length lms = n)"

definition mediapipe_results :: "results \<Rightarrow> bool" where
  "mediapipe_results r \<longleftrightarrow>
     group_ok 33 (poseLandmarks r) \<and> group_ok 468 (faceLandmarks r) \<and>
     group_ok 21 (leftHandLandmarks r) \<and> group_ok 21 (rightHandLandmarks r)"

text \<open>The segment of a keypoint vector that starts at index \<open>i\<close> and has \<open>n\<close> triples.\<close>

definition segment :: "nat \<Rightarrow> nat \<Rightarrow> triple list \<Rightarrow> triple list" where
  "segment i n keypoints = take n (drop i keypoints)"

text \<open>Sample inputs: nothing detected, and only a left hand detected.\<close>

definition no_detection :: results where
  "no_detection =
     \<lparr>poseLandmarks = None, faceLandmarks = None,
      leftHandLandmarks = None, rightHandLandmarks = None\<rparr>"

definition hand_point :: landmark where
  "hand_point = \<lparr>lm_x = 1, lm_y = 1, lm_z = 1\<rparr>"

definition left_hand_only :: results where
  "left_hand_only = no_detection\<lparr>leftHandLandmarks := Some (replicate 21 hand_point)\<rparr>"

section \<open>The live recording controller\<close>

text \<open>
  The component \<open>DeafUserInterface\<close>. Its refs (\<open>isRecordingRef\<close>, \<open>framesRef\<close>,
  \<open>frameCountRef\<close>, \<open>demoOverrideRef\<close>) are mutable cells read by the callbacks; the
  React state that mirrors them for display is kept beside them. Two log fields record
  the calls made to collaborators: \<open>recognize_calls\<close> holds the frame buffers passed to
  \<open>apiService.processDeafUserMessage\<close> (the recognition endpoint), \<open>translate_calls\<close> the
  texts posted to the translation endpoint. \<open>demo_timers\<close> holds the pending
  \<open>setTimeout\<close> of \<open>processDemoSign\<close>: the delay in milliseconds and the sign that the
  suspended call will report.
\<close>

record frame =
  frame_id :: nat
  keypoints :: "triple list"

record demoSign =
  sign_id :: string
  label :: string
  sign_text :: string

record live =
  isRecordingRef :: bool
  framesRef :: "frame list"
  frameCountRef :: nat
  demoOverrideRef :: "demoSign option"
  isRecording :: bool
  isProcessing :: bool
  frames_ui :: "frame list"
  frameCount_ui :: nat
  recognizedText :: string
  translatedText :: string
  error :: "string option"
  recognize_calls :: "frame list list"
  translate_calls :: "string list"
  demo_timers :: "(int \<times> demoSign) list"

definition live_init :: live where
  "live_init =
     \<lparr>isRecordingRef = False, framesRef = [], frameCountRef = 0, demoOverrideRef = None,
      isRecording = False, isProcessing = False, frames_ui = [], frameCount_ui = 0,
      recognizedText = [], translatedText = [], error = None,
      recognize_calls = [], translate_calls = [], demo_timers = []\<rparr>"

text \<open>
  The labels end in an emoji; a \<^typ>\<open>string\<close> is a list of bytes, so the emoji are
  written as the UTF-8 bytes of the source file.
\<close>

definition demoSigns :: "demoSign list" where
  "demoSigns =
     [\<lparr>sign_id = ''hello'',
       label = ''Hello '' @ [CHR 0xF0, CHR 0x9F, CHR 0x91, CHR 0x8B],
       sign_text = ''hello''\<rparr>,
      \<lparr>sign_id = ''how_are_you'',
       label = ''How Are You? '' @ [CHR 0xF0, CHR 0x9F, CHR 0xA4, CHR 0x94],
       sign_text = ''how are you''\<rparr>,
      \<lparr>sign_id = ''good_morning'',
       label = ''Good Morning '' @ [CHR 0xE2, CHR 0x98, CHR 0x80, CHR 0xEF, CHR 0xB8, CHR 0x8F],
       sign_text = ''good morning''\<rparr>,
      \<lparr>sign_id = ''good_afternoon'',
       label = ''Good Afternoon '' @
         [CHR 0xF0, CHR 0x9F, CHR 0x8C, CHR 0xA4, CHR 0xEF, CHR 0xB8, CHR 0x8F],
       sign_text = ''good afternoon''\<rparr>,
      \<lparr>sign_id = ''alright'',
       label = ''Alright '' @ [CHR 0xF0, CHR 0x9F, CHR 0x91, CHR 0x8D],
       sign_text = ''alright''\<rparr>]"

text \<open>\<open>handleMediaPipeResults\<close>, without the canvas drawing: a frame is collected only while recording.\<close>

definition handleMediaPipeResults :: "results \<Rightarrow> live \<Rightarrow> live" where
  "handleMediaPipeResults r s =
     (if isRecordingRef s
      then (let keypoints = extractKeypoints_DeafUserInterface r;
                newFrame = \<lparr>frame_id = frameCountRef s, keypoints = keypoints\<rparr>;
                s = s\<lparr>framesRef := framesRef s @ [newFrame]\<rparr>;
                s = s\<lparr>frameCountRef := frameCountRef s + 1\<rparr>
            in s\<lparr>frames_ui := framesRef s, frameCount_ui := frameCountRef s\<rparr>)
      else s)"

definition startRecording :: "live \<Rightarrow> live" where
  "startRecording s =
     s\<lparr>framesRef := [], frameCountRef := 0, frames_ui := [], frameCount_ui := 0,
       isRecording := True, isRecordingRef := True,
       recognizedText := [], translatedText := [], error := None\<rparr>"

subsection \<open>JavaScript library functions used by the demo override\<close>

text \<open>
  A JavaScript number is an IEEE 754 double. \<open>round_double x\<close> is the double nearest
  to the real \<open>x\<close>, a tie going to the even significand: 53 significant bits, the
  exponent (the largest \<open>e\<close> with \<open>2^e \<le> |x|\<close>) kept between \<open>-1022\<close> and \<open>1023\<close>,
  so that the subnormal numbers are included. The overflow to \<open>Infinity\<close> is left out;
  no number met here comes near it. An arithmetic operation
  yields the rounded exact result, and a decimal literal denotes the double nearest to
  it. \<open>Math.random()\<close> is an input of the model: a double \<open>r\<close> with \<open>0 \<le> r < 1\<close>.
\<close>

definition round_even :: "real \<Rightarrow> int" where
  "round_even y =
     (let f = \<lfloor>y\<rfloor>; d = y - of_int f
      in if d < 1 / 2 then f else if d > 1 / 2 then f + 1 else if even f then f else f + 1)"

definition pow2 :: "int \<Rightarrow> real" where
  "pow2 e = (if 0 \<le> e then 2 ^ nat e else 1 / 2 ^ nat (- e))"

definition double_exponent :: "real \<Rightarrow> int" where
  "double_exponent x =
     Max (insert (- 1022) (Set.filter (\<lambda>e. pow2 e \<le> \<bar>x\<bar>) {- 1022..1023}))"

definition round_double :: "real \<Rightarrow> real" where
  "round_double x =
     (if x = 0 then 0
      else (let u = pow2 (double_exponent x - 52)
            in of_int (round_even (x / u)) * u))"

definition is_double :: "real \<Rightarrow> bool" where
  "is_double x \<longleftrightarrow> round_double x = x"

definition js_mul :: "real \<Rightarrow> real \<Rightarrow> real" where
  "js_mul a b = round_double (a * b)"

definition js_add :: "real \<Rightarrow> real \<Rightarrow> real" where
  "js_add a b = round_double (a + b)"

definition js_sub :: "real \<Rightarrow> real \<Rightarrow> real" where
  "js_sub a b = round_double (a - b)"

text \<open>
  \<open>x.toFixed(f)\<close> picks the integer \<open>n\<close> with \<open>n / 10^f\<close> nearest to the exact value
  of \<open>x\<close>, the larger one on a tie (for a negative \<open>x\<close> the sign is set aside first),
  and prints \<open>n\<close> with a decimal point before its last \<open>f\<close> digits;
  \<open>toFixed_units f x\<close> is that \<open>n\<close>.
\<close>

definition toFixed_units :: "nat \<Rightarrow> real \<Rightarrow> int" where
  "toFixed_units f x =
     (if x < 0 then - \<lfloor>(- x) * 10 ^ f + 1 / 2\<rfloor> else \<lfloor>x * 10 ^ f + 1 / 2\<rfloor>)"

function show_nat :: "nat \<Rightarrow> string" where
  "show_nat n =
     (if n < 10 then [''0123456789'' ! n]
      else show_nat (n div 10) @ [''0123456789'' ! (n mod 10)])"
  by pat_completeness auto
termination
  by (relation "measure id") auto

definition show_int :: "int \<Rightarrow> string" where
  "show_int i = (if i < 0 then CHR ''-'' # show_nat (nat (- i)) else show_nat (nat i))"

fun index_of :: "'a \<Rightarrow> 'a list \<Rightarrow> nat option" where
  "index_of x [] = None"
| "index_of x (y # ys) = (if x = y then Some 0 else map_option Suc (index_of x ys))"

definition digit_val :: "nat \<Rightarrow> char \<Rightarrow> nat option" where
  "digit_val radix c =
     (case index_of c ''0123456789abcdef'' of
        Some d \<Rightarrow> if d < radix then Some d else None
      | None \<Rightarrow>
          (case index_of c ''ABCDEF'' of
             Some d \<Rightarrow> if d + 10 < radix then Some (d + 10) else None
           | None \<Rightarrow> None))"

definition is_space :: "char \<Rightarrow> bool" where
  "is_space c \<longleftrightarrow> c \<in> set [CHR '' '', CHR 0x09, CHR 0x0A, CHR 0x0B, CHR 0x0C, CHR 0x0D]"

text \<open>
  \<open>parseInt(str)\<close> with no radix argument: leading white space is dropped, a sign is
  read, a \<open>0x\<close> prefix selects radix 16, and the longest prefix of digits is the value;
  with no digit the result is \<open>NaN\<close>, here \<open>None\<close>. White space is the ASCII white
  space, which is all a key name can start with.
\<close>

definition parseInt :: "string \<Rightarrow> int option" where
  "parseInt str =
     (let s = dropWhile is_space str;
          neg = (take 1 s = ''-'');
          s = (if take 1 s = ''-'' \<or> take 1 s = ''+'' then drop 1 s else s);
          radix = (if take 2 s = ''0x'' \<or> take 2 s = ''0X'' then 16 else 10);
          s = (if radix = 16 then drop 2 s else s);
          ds = takeWhile (\<lambda>c. digit_val radix c \<noteq> None) s;
          n = foldl (\<lambda>a c. case digit_val radix c of Some d \<Rightarrow> a * radix + d | None \<Rightarrow> a) 0 ds
      in if ds = [] then None else Some (if neg then - int n else int n))"

subsection \<open>The demo override and \<open>stopRecording\<close>\<close>

text \<open>
  The \<open>keydown\<close> listener, given the tag name of the event target and \<open>e.key\<close>. With
  \<open>NaN\<close> both comparisons of the index are false.
\<close>

definition handleKeyPress :: "string \<Rightarrow> string \<Rightarrow> live \<Rightarrow> live" where
  "handleKeyPress tagName key s =
     (if tagName = ''INPUT'' \<or> tagName = ''TEXTAREA'' then s
      else (case parseInt key of
              None \<Rightarrow> s
            | Some n \<Rightarrow>
                (let index = n - 1
                 in if index \<ge> 0 \<and> index < int (length demoSigns)
                    then s\<lparr>demoOverrideRef := Some (demoSigns ! nat index)\<rparr>
                    else s)))"

text \<open>
  \<open>processDemoSign\<close> runs in two parts, split at its \<open>await\<close> of the delay.
  \<open>processDemoSign_call\<close> is the part run when it is called, with the value \<open>rnd\<close> of
  \<open>Math.random()\<close>; \<open>processDemoSign_resume\<close> is the part run when the timer fires,
  with a second random value and the outcome of the translation request (\<open>None\<close> when
  the request or its decoding throws, else the \<open>translated_text\<close> of the answer, empty
  when it is missing).
\<close>

definition processDemoSign_call :: "real \<Rightarrow> demoSign \<Rightarrow> live \<Rightarrow> live" where
  "processDemoSign_call rnd sign s =
     (let s = s\<lparr>isProcessing := True, error := None\<rparr>;
          randomDelay = \<lfloor>js_mul rnd 1400\<rfloor> + 800
      in s\<lparr>demo_timers := demo_timers s @ [(randomDelay, sign)]\<rparr>)"

text \<open>
  The percentage shown by \<open>processDemoSign\<close>. \<open>randomConfidence\<close> is the string of
  \<open>toFixed(2)\<close>, held here as its number of hundredths; in
  \<open>randomConfidence * 100\<close> the string is read as the double nearest to the decimal
  it spells, and the product is printed by \<open>toFixed(0)\<close>.
\<close>

definition demo_confidence :: "real \<Rightarrow> int" where
  "demo_confidence rnd =
     (let randomConfidence =
            toFixed_units 2
              (js_add (js_mul rnd (js_sub (round_double 0.94) (round_double 0.82)))
                 (round_double 0.82))
      in toFixed_units 0 (js_mul (round_double (of_int randomConfidence / 100)) 100))"

definition processDemoSign_resume :: "real \<Rightarrow> string option \<Rightarrow> demoSign \<Rightarrow> live \<Rightarrow> live" where
  "processDemoSign_resume rnd translation sign s =
     (let s = s\<lparr>recognizedText :=
                  label sign @ '' ('' @ show_int (demo_confidence rnd) @ ''% confidence)''\<rparr>;
          s = s\<lparr>translate_calls := translate_calls s @ [sign_text sign]\<rparr>;
          s = (case translation of
                 Some t \<Rightarrow> s\<lparr>translatedText := (if t = [] then sign_text sign else t)\<rparr>
               | None \<Rightarrow> s\<lparr>translatedText := sign_text sign\<rparr>)
      in s\<lparr>isProcessing := False, demoOverrideRef := None\<rparr>)"

text \<open>
  \<open>stopRecording\<close> up to its first \<open>await\<close>. The argument of the awaited
  \<open>apiService.processDeafUserMessage(...)\<close> is evaluated, and the request issued, before
  the function is suspended, so the call is part of this step. What follows the answer
  only sets the displayed texts and \<open>isProcessing\<close>, and is not modelled.
\<close>

definition stopRecording :: "real \<Rightarrow> live \<Rightarrow> live" where
  "stopRecording rnd s =
     (let s = s\<lparr>isRecording := False, isRecordingRef := False\<rparr>
      in case demoOverrideRef s of
           Some sign \<Rightarrow> processDemoSign_call rnd sign s
         | None \<Rightarrow>
             (let s = s\<lparr>isProcessing := True\<rparr>;
                  collectedFrames = framesRef s
              in if length collectedFrames = 0
                 then s\<lparr>error := Some ''No frames recorded. Please try again.'',
                        isProcessing := False\<rparr>
                 else s\<lparr>recognize_calls := recognize_calls s @ [collectedFrames]\<rparr>))"

text \<open>The events of the live interface, and the controller run over a list of them.\<close>

datatype live_event =
    StartRecording
  | StopRecording real
  | MediaPipeResults results
  | KeyPress string string
  | DemoTimerFires real "string option"

fun live_step :: "live \<Rightarrow> live_event \<Rightarrow> live" where
  "live_step s StartRecording = startRecording s"
| "live_step s (StopRecording rnd) = stopRecording rnd s"
| "live_step s (MediaPipeResults r) = handleMediaPipeResults r s"
| "live_step s (KeyPress tagName key) = handleKeyPress tagName key s"
| "live_step s (DemoTimerFires rnd translation) =
     (case demo_timers s of
        [] \<Rightarrow> s
      | (delay, sign) # rest \<Rightarrow>
          processDemoSign_resume rnd translation sign (s\<lparr>demo_timers := rest\<rparr>))"

definition live_run :: "live_event list \<Rightarrow> live \<Rightarrow> live" where
  "live_run evs s = foldl live_step s evs"

text \<open>A recording with one frame collected and no demo override queued.\<close>

definition recording_one_frame :: live where
  "recording_one_frame = handleMediaPipeResults no_detection (startRecording live_init)"

section \<open>The dataset processor: one video session\<close>

text \<open>
  \<open>processVideoSimple(video)\<close> creates, per call, the locals \<open>frames\<close>, \<open>frameId\<close> and
  \<open>isProcessingFrame\<close> and the handlers that close over them. The record below holds
  these locals, the two properties of the video element that the handlers read
  (\<open>paused\<close>, \<open>ended\<close>), whether the returned promise has been resolved, and what has
  been asked of the collaborators: \<open>sent\<close> lists the source frames drawn to the canvas
  and given to \<open>send\<close>, \<open>inflight\<close> counts the sends that the engine has neither
  answered nor failed, \<open>saveData_calls\<close> lists the frame buffers posted by \<open>saveData\<close>.
\<close>

record video =
  filename :: string
  url :: string
  sign_label :: string

record session =
  frames :: "frame list"
  frameId :: nat
  isProcessingFrame :: bool
  paused :: bool
  ended :: bool
  resolved :: bool
  sent :: "nat list"
  inflight :: nat
  saveData_calls :: "frame list list"
  logs :: "string list"

definition new_session :: session where
  "new_session =
     \<lparr>frames = [], frameId = 0, isProcessingFrame = False, paused = False, ended = False,
      resolved = False, sent = [], inflight = 0, saveData_calls = [], logs = []\<rparr>"

text \<open>\<open>addLog\<close> keeps the last four entries and appends the new one.\<close>

definition addLog :: "string \<Rightarrow> string list \<Rightarrow> string list" where
  "addLog msg prev = drop (length prev - 4) prev @ [msg]"

text \<open>The result handler registered with \<open>holisticRef.current.onResults\<close>.\<close>

definition onResults :: "results \<Rightarrow> session \<Rightarrow> session" where
  "onResults r s =
     (let keypoints = extractKeypoints_DatasetProcessor r;
          s = s\<lparr>frames := frames s @ [\<lparr>frame_id = frameId s, keypoints = keypoints\<rparr>],
                frameId := frameId s + 1\<rparr>
      in s\<lparr>isProcessingFrame := False\<rparr>)"

definition onended :: "video \<Rightarrow> session \<Rightarrow> session" where
  "onended v s =
     (let s = s\<lparr>logs := addLog (''Finished '' @ filename v @ '': '' @
                                 show_nat (length (frames s)) @ '' frames'') (logs s)\<rparr>;
          s = (if length (frames s) > 0
               then s\<lparr>saveData_calls := saveData_calls s @ [frames s]\<rparr>
               else s\<lparr>logs := addLog (''WARNING: 0 frames for '' @ filename v) (logs s)\<rparr>)
      in s\<lparr>resolved := True\<rparr>)"

definition onerror :: "video \<Rightarrow> session \<Rightarrow> session" where
  "onerror v s =
     s\<lparr>logs := addLog (''Error loading '' @ filename v) (logs s), resolved := True\<rparr>"

text \<open>The handler of a rejected \<open>videoEl.play()\<close>, with the message of the error.\<close>

definition play_catch :: "string \<Rightarrow> session \<Rightarrow> session" where
  "play_catch msg s = s\<lparr>logs := addLog (''Play error: '' @ msg) (logs s), resolved := True\<rparr>"

text \<open>
  \<open>processNextFrame\<close> up to its \<open>await\<close>, called by the source for the frame \<open>img\<close>
  (by \<open>onplay\<close>, \<open>requestVideoFrameCallback\<close> or \<open>requestAnimationFrame\<close>);
  \<open>holistic\<close> is the value of \<open>holisticRef.current\<close>. When the guard fails nothing is
  drawn or sent, and the function only registers itself for the next frame.
\<close>

definition processNextFrame :: "nat option \<Rightarrow> nat \<Rightarrow> session \<Rightarrow> session" where
  "processNextFrame holistic img s =
     (if paused s \<or> ended s then s
      else if \<not> isProcessingFrame s \<and> holistic \<noteq> None
      then (let s = s\<lparr>isProcessingFrame := True\<rparr>
            in s\<lparr>sent := sent s @ [img], inflight := inflight s + 1\<rparr>)
      else s)"

text \<open>The \<open>catch\<close> block of \<open>processNextFrame\<close>: the awaited send has thrown.\<close>

definition send_catch :: "video \<Rightarrow> session \<Rightarrow> session" where
  "send_catch v s =
     (let s = s\<lparr>isProcessingFrame := False\<rparr>;
          s = s\<lparr>paused := True\<rparr>;
          s = s\<lparr>logs := addLog (''Crash on '' @ filename v) (logs s)\<rparr>
      in s\<lparr>resolved := True\<rparr>)"

text \<open>
  What can happen during a session. \<open>EngineResults\<close> (the engine calls the result
  handler) and \<open>SendThrows\<close> (the awaited send throws) are the engine's two ways of
  finishing a send, so each takes one send out of flight.
\<close>

datatype vevent =
    FrameCallback nat
  | EngineResults results
  | SendThrows
  | VideoEnded
  | VideoError
  | PlayRejected string

fun session_step :: "nat option \<Rightarrow> video \<Rightarrow> session \<Rightarrow> vevent \<Rightarrow> session" where
  "session_step holistic v s (FrameCallback img) = processNextFrame holistic img s"
| "session_step holistic v s (EngineResults r) = (onResults r s)\<lparr>inflight := inflight s - 1\<rparr>"
| "session_step holistic v s SendThrows = (send_catch v s)\<lparr>inflight := inflight s - 1\<rparr>"
| "session_step holistic v s VideoEnded = onended v (s\<lparr>ended := True\<rparr>)"
| "session_step holistic v s VideoError = onerror v s"
| "session_step holistic v s (PlayRejected msg) = play_catch msg s"

definition session_run :: "nat option \<Rightarrow> video \<Rightarrow> vevent list \<Rightarrow> session \<Rightarrow> session" where
  "session_run holistic v evs s = foldl (session_step holistic v) s evs"



section \<open>The dataset processor: the queue\<close>

text \<open>
  The engine handle \<open>holisticRef.current\<close> is identified by the number of instances
  created before it. \<open>closed\<close> lists the handles that \<open>createHolisticInstance\<close> closed
  and replaced; each such replacement is one recycle. \<open>handles_used\<close> lists, per video,
  the handle that \<open>processVideoSimple\<close> found in \<open>holisticRef.current\<close>.
\<close>

record batch =
  holisticRef :: "nat option"
  created :: nat
  closed :: "nat list"
  processedCount :: nat
  batch_isProcessing :: bool
  handles_used :: "nat option list"
  saveData_posts :: "(string \<times> frame list) list"
  batch_logs :: "string list"

definition createHolisticInstance :: "batch \<Rightarrow> batch" where
  "createHolisticInstance b =
     (let b = (case holisticRef b of
                 Some h \<Rightarrow> b\<lparr>closed := closed b @ [h]\<rparr>
               | None \<Rightarrow> b)
      in b\<lparr>holisticRef := Some (created b), created := created b + 1\<rparr>)"

definition recycles :: "batch \<Rightarrow> nat" where
  "recycles b = length (closed b)"

text \<open>The component after its mount effect: one engine instance, nothing processed.\<close>

definition batch_mounted :: batch where
  "batch_mounted =
     createHolisticInstance
       \<lparr>holisticRef = None, created = 0, closed = [], processedCount = 0,
        batch_isProcessing = False, handles_used = [], saveData_posts = [], batch_logs = []\<rparr>"

text \<open>
  A job is a video with what happens while it is processed (the log lines written by
  the handlers of a session are kept with the session). The promise returned by
  \<open>processVideoSimple\<close> is rejected only when its executor throws (\<open>reject\<close> is never
  called); otherwise the handlers run over the events, and the promise is resolved if
  one of them called \<open>resolve\<close> and stays pending if none did.
\<close>

record job =
  job_video :: video
  executor_throws :: bool
  job_events :: "vevent list"

datatype promise = Rejected | Resolved session | Pending

definition processVideoSimple :: "nat option \<Rightarrow> job \<Rightarrow> promise" where
  "processVideoSimple holistic j =
     (if executor_throws j then Rejected
      else (let s = session_run holistic (job_video j) (job_events j) new_session
            in if resolved s then Resolved s else Pending))"

text \<open>
  The loop of \<open>startProcessing\<close>. The name \<open>processedCount\<close> in its condition is the
  constant of the render in which the button was clicked: \<open>setProcessedCount\<close> changes
  the state of the component, seen by the next render, and not this constant. So the
  loop takes the captured value as the argument \<open>captured\<close> and never changes it, while
  the state is the field \<open>processedCount\<close>. Awaiting a promise that stays pending never
  returns: the result is \<open>None\<close>. \<open>createHolisticInstance\<close> is taken not to throw, and
  the log line of the \<open>catch\<close> block is written without the text of the error.
\<close>

fun startProcessing_loop :: "nat \<Rightarrow> job list \<Rightarrow> batch \<Rightarrow> batch option" where
  "startProcessing_loop captured [] b =
     Some (b\<lparr>batch_isProcessing := False,
             batch_logs := addLog ''All Processing Complete!'' (batch_logs b)\<rparr>)"
| "startProcessing_loop captured (j # js) b =
     (let b = (if captured > 0 \<and> captured mod 20 = 0 then createHolisticInstance b else b);
          b = b\<lparr>handles_used := handles_used b @ [holisticRef b]\<rparr>
      in case processVideoSimple (holisticRef b) j of
           Resolved s \<Rightarrow>
             startProcessing_loop captured js
               (b\<lparr>saveData_posts :=
                     saveData_posts b @ map (Pair (filename (job_video j))) (saveData_calls s),
                   processedCount := processedCount b + 1\<rparr>)
         | Rejected \<Rightarrow>
             startProcessing_loop captured js
               (createHolisticInstance
                  (b\<lparr>batch_logs := addLog (''Failed '' @ filename (job_video j)) (batch_logs b)\<rparr>))
         | Pending \<Rightarrow> None)"

definition startProcessing :: "job list \<Rightarrow> batch \<Rightarrow> batch option" where
  "startProcessing videos b =
     startProcessing_loop (processedCount b) videos
       (b\<lparr>batch_isProcessing := True, processedCount := 0\<rparr>)"

text \<open>
  Sample jobs: a video that yields one frame and ends, one that ends while its first
  send is unanswered, and one whose first send throws.
\<close>

definition sample_video :: video where
  "sample_video = \<lparr>filename = ''a.mp4'', url = ''/videos/a.mp4'', sign_label = ''hello''\<rparr>"

definition good_job :: job where
  "good_job =
     \<lparr>job_video = sample_video, executor_throws = False,
      job_events = [FrameCallback 0, EngineResults no_detection, VideoEnded]\<rparr>"


definition crash_job :: job where
  "crash_job =
     \<lparr>job_video = sample_video, executor_throws = False,
      job_events = [FrameCallback 0, SendThrows]\<rparr>"

section \<open>The video processor\<close>

text \<open>
  The component \<open>VideoProcessor\<close>. \<open>currentFramesRef\<close> and \<open>frameIdRef\<close> are its
  buffer and counter, \<open>currentIndex\<close> the state advanced by \<open>setCurrentIndex\<close>.
  \<open>save_posts\<close> lists the bodies posted to the persistence endpoint (source file name
  and frames); \<open>play_calls\<close>, \<open>seeks\<close> and \<open>frame_loops\<close> count the calls of
  \<open>videoRef.current.play()\<close>, the assignments \<open>currentTime = 0\<close> and the calls of
  \<open>processVideoFrames\<close>.
\<close>

record vp =
  currentFramesRef :: "frame list"
  frameIdRef :: nat
  currentIndex :: nat
  processingStatus :: string
  save_posts :: "(string \<times> frame list) list"
  vp_logs :: "string list"
  play_calls :: nat
  seeks :: nat
  frame_loops :: nat


text \<open>The newest entry first, at most fifty kept; the time stamp of an entry is left out.\<close>

definition vp_addLog :: "string \<Rightarrow> vp \<Rightarrow> vp" where
  "vp_addLog msg s = s\<lparr>vp_logs := take 50 (msg # vp_logs s)\<rparr>"

definition handleResults :: "results \<Rightarrow> vp \<Rightarrow> vp" where
  "handleResults r s =
     (let keypoints = extractKeypoints_VideoProcessor r
      in s\<lparr>currentFramesRef :=
             currentFramesRef s @ [\<lparr>frame_id = frameIdRef s, keypoints = keypoints\<rparr>],
           frameIdRef := frameIdRef s + 1\<rparr>)"

text \<open>
  \<open>saveResults\<close>; \<open>fetch_ok\<close> tells whether the request went through (the log line of
  a failed request is written without the text of the error).
\<close>

definition saveResults :: "video \<Rightarrow> bool \<Rightarrow> vp \<Rightarrow> vp" where
  "saveResults videoItem fetch_ok s =
     (if length (currentFramesRef s) = 0
      then vp_addLog (''Warning: No frames extracted for '' @ filename videoItem) s
      else (let s = s\<lparr>save_posts := save_posts s @ [(filename videoItem, currentFramesRef s)]\<rparr>
            in if fetch_ok
               then vp_addLog (''Saved '' @ filename videoItem @ '' ('' @
                               show_nat (length (currentFramesRef s)) @ '' frames)'') s
               else vp_addLog (''Error saving '' @ filename videoItem) s))"

text \<open>\<open>str.includes(sub)\<close>\<close>

fun str_includes :: "string \<Rightarrow> string \<Rightarrow> bool" where
  "str_includes sub [] = (sub = [])"
| "str_includes sub (c # cs) = (take (length sub) (c # cs) = sub \<or> str_includes sub cs)"

text \<open>
  One attempt of \<open>playVideo\<close> as the environment decides it: whether \<open>play()\<close>
  resolves or throws (with the message of the error), the results that the engine
  delivers to \<open>handleResults\<close> before the safety timeout of twelve seconds fires, and
  whether a save request made then goes through.
\<close>

datatype play_outcome = PlayOk | PlayThrows string

record attempt =
  play_result :: play_outcome
  delivered :: "results list"
  save_ok :: bool

text \<open>
  \<open>playVideo(retryCount)\<close> together with the timeout it sets. In the closure
  \<open>videoItem\<close> is \<open>manifest[currentIndex]\<close> for the \<open>currentIndex\<close> of the same render,
  so the test \<open>currentIndex === manifest.indexOf(videoItem)\<close> of the timeout holds (the
  entries of the parsed manifest are distinct objects) and is not repeated here.
  This function is the watchdog chain alone. Every successful attempt also starts a
  frame loop (\<open>processVideoFrames\<close>); the loops are modelled on their own below
  (\<open>processFrame\<close>), the chain sees of them the frames delivered to the buffer, and
  nothing in the code stops them when the chain gives up or the next job starts: they
  go on working on the same buffer and index.
\<close>

function playVideo :: "(nat \<Rightarrow> attempt) \<Rightarrow> video \<Rightarrow> nat \<Rightarrow> vp \<Rightarrow> vp" where
  "playVideo env videoItem retryCount s =
     (if retryCount > 3
      then (let s = vp_addLog (''Error playing '' @ filename videoItem @ '': '' @
                               ''Max retries exceeded'') s
            in s\<lparr>currentIndex := currentIndex s + 1\<rparr>)
      else (case play_result (env retryCount) of
              PlayThrows msg \<Rightarrow>
                (let s = s\<lparr>play_calls := play_calls s + 1\<rparr>;
                     s = vp_addLog (''Error playing '' @ filename videoItem @ '': '' @ msg) s
                 in if str_includes ''interrupted'' msg
                    then playVideo env videoItem (retryCount + 1) s
                    else s\<lparr>currentIndex := currentIndex s + 1\<rparr>)
            | PlayOk \<Rightarrow>
                (let s = s\<lparr>play_calls := play_calls s + 1\<rparr>;
                     s = s\<lparr>frame_loops := frame_loops s + 1\<rparr>;
                     s = foldl (\<lambda>s r. handleResults r s) s (delivered (env retryCount))
                 in if length (currentFramesRef s) = 0
                    then playVideo env videoItem (retryCount + 1) s
                    else (let s = saveResults videoItem (save_ok (env retryCount)) s
                          in s\<lparr>currentIndex := currentIndex s + 1\<rparr>))))"
  by pat_completeness auto
termination
  by (relation "measure (\<lambda>(env, videoItem, retryCount, s). 4 - retryCount)") auto


text \<open>
  The frame loop \<open>processFrame\<close> of \<open>processVideoFrames\<close>. At its \<open>i\<close>-th run the
  environment decides what it meets: the component is gone, the video is ended or
  paused (with the outcome of the \<open>play()\<close> of the retry branch and of a save request),
  or the video is running (with the outcome of \<open>holistic.send\<close>: it delivers a result
  and resolves, resolves without one, throws, or never settles). The loop has no
  counter of its own; a run that never returns has the value \<open>None\<close>. The symbol
  that starts the log line of the retry branch is left out.
\<close>

datatype send_outcome = SendDelivers results | SendResolves | SendRejects | SendNeverSettles

datatype tick = Unmounted | Stopped play_outcome bool | Running send_outcome

partial_function (option) processFrame :: "(nat \<Rightarrow> tick) \<Rightarrow> video \<Rightarrow> nat \<Rightarrow> vp \<Rightarrow> vp option" where
  "processFrame env videoItem i s =
     (case env i of
        Unmounted \<Rightarrow> Some s
      | Stopped replay fetch_ok \<Rightarrow>
          (if length (currentFramesRef s) > 0
           then (let s = saveResults videoItem fetch_ok s
                 in Some (s\<lparr>currentIndex := currentIndex s + 1\<rparr>))
           else (let s = vp_addLog (''No frames for '' @ filename videoItem @ '' - RETRYING'') s;
                     s = s\<lparr>currentFramesRef := []\<rparr>;
                     s = s\<lparr>seeks := seeks s + 1\<rparr>;
                     s = s\<lparr>play_calls := play_calls s + 1\<rparr>
                 in case replay of
                      PlayOk \<Rightarrow> processFrame env videoItem (i + 1) s
                    | PlayThrows msg \<Rightarrow> Some s))
      | Running outcome \<Rightarrow>
          (case outcome of
             SendDelivers r \<Rightarrow> processFrame env videoItem (i + 1) (handleResults r s)
           | SendResolves \<Rightarrow> processFrame env videoItem (i + 1) s
           | SendRejects \<Rightarrow> Some s
           | SendNeverSettles \<Rightarrow> None))"








section \<open>Invariants\<close>

text \<open>A buffer whose frames are numbered from zero in the order they were appended.\<close>

definition numbered :: "frame list \<Rightarrow> bool" where
  "numbered fs \<longleftrightarrow> map frame_id fs = [0..<length fs]"

definition live_inv :: "live \<Rightarrow> bool" where
  "live_inv s \<longleftrightarrow> numbered (framesRef s) \<and> frameCountRef s = length (framesRef s)"

text \<open>
  For a video session: the counter is the length of the buffer and nothing was saved
  from an empty buffer; and, where the engine finishes only sends that were issued, the
  flag is set exactly while a send is in flight.
\<close>

definition buffer_inv :: "session \<Rightarrow> bool" where
  "buffer_inv s \<longleftrightarrow>
     numbered (frames s) \<and> frameId s = length (frames s) \<and>
     (frames s = [] \<longrightarrow> saveData_calls s = [])"


section \<open>Properties of the extractors\<close>

lemma length_pushLandmarks [simp]:
  "length (pushLandmarks lms kp) = length kp + length lms"
  by (simp add: pushLandmarks_def)

lemma length_pushZeros [simp]: "length (pushZeros n kp) = length kp + n"
  by (simp add: pushZeros_def)

lemma extract_Deaf_append:
  "extractKeypoints_DeafUserInterface r =
     addPoints (poseLandmarks r) 33 [] @ addPoints (faceLandmarks r) 468 [] @
     addPoints (leftHandLandmarks r) 21 [] @ addPoints (rightHandLandmarks r) 21 []"
  by (simp add: extractKeypoints_DeafUserInterface_def addPoints_def pushLandmarks_def
      pushZeros_def Let_def split: option.splits)

lemma extract_Service_append:
  "extractKeypoints_MediaPipeService r =
     addPoints (poseLandmarks r) 33 [] @ addPoints (leftHandLandmarks r) 21 [] @
     addPoints (rightHandLandmarks r) 21 [] @ addPoints (faceLandmarks r) 468 []"
  by (simp add: extractKeypoints_MediaPipeService_def addPoints_def pushLandmarks_def
      pushZeros_def Let_def split: option.splits)

lemma length_addPoints_ok: "group_ok n g \<Longrightarrow> length (addPoints g n []) = n"
  by (cases g) (simp_all add: group_ok_def addPoints_def)

lemma addPoints_None [simp]: "addPoints None n [] = replicate n (0, 0, 0)"
  by (simp add: addPoints_def pushZeros_def)

lemma segment_first: "length a = n \<Longrightarrow> segment 0 n (a @ rest) = a"
  by (simp add: segment_def)

lemma segment_second:
  "length a = i \<Longrightarrow> length b = n \<Longrightarrow> segment i n (a @ b @ rest) = b"
  by (simp add: segment_def)

lemma segment_third:
  "length a + length b = i \<Longrightarrow> length c = n \<Longrightarrow> segment i n (a @ b @ c @ rest) = c"
  by (simp add: segment_def)

lemma segment_fourth:
  "length a + length b + length c = i \<Longrightarrow> length d = n \<Longrightarrow>
   segment i n (a @ b @ c @ d) = d"
  by (simp add: segment_def)

lemma extract_Dataset_eq:
  "extractKeypoints_DatasetProcessor r = extractKeypoints_DeafUserInterface r"
  by (simp add: extractKeypoints_DatasetProcessor_def extractKeypoints_DeafUserInterface_def)

lemma extract_Video_eq:
  "extractKeypoints_VideoProcessor r = extractKeypoints_MediaPipeService r"
  by (simp add: extractKeypoints_VideoProcessor_def extractKeypoints_MediaPipeService_def
      addPoints_def)

lemma mediapipe_results_no_detection: "mediapipe_results no_detection"
  by (simp add: mediapipe_results_def no_detection_def group_ok_def)

lemma mediapipe_results_left_hand_only: "mediapipe_results left_hand_only"
  by (simp add: mediapipe_results_def left_hand_only_def no_detection_def group_ok_def)

text \<open>
  Claim C1. For every result of the engine (a detected group has the cardinality of its
  kind) the extracted vector has 543 triples, with the live interface's extractor and
  with the MediaPipe service's; and a group that was not detected fills its segment of
  the vector with its fixed number of zero triples (33 pose, 468 face, 21 per hand).
\<close>

theorem C1_keypoint_width:
  assumes wf: "mediapipe_results r"
  shows "length (extractKeypoints_DeafUserInterface r) = 543 \<and>
         length (extractKeypoints_MediaPipeService r) = 543 \<and>
         (poseLandmarks r = None \<longrightarrow>
            segment 0 33 (extractKeypoints_DeafUserInterface r) = replicate 33 (0, 0, 0) \<and>
            segment 0 33 (extractKeypoints_MediaPipeService r) = replicate 33 (0, 0, 0)) \<and>
         (faceLandmarks r = None \<longrightarrow>
            segment 33 468 (extractKeypoints_DeafUserInterface r) = replicate 468 (0, 0, 0) \<and>
            segment 75 468 (extractKeypoints_MediaPipeService r) = replicate 468 (0, 0, 0)) \<and>
         (leftHandLandmarks r = None \<longrightarrow>
            segment 501 21 (extractKeypoints_DeafUserInterface r) = replicate 21 (0, 0, 0) \<and>
            segment 33 21 (extractKeypoints_MediaPipeService r) = replicate 21 (0, 0, 0)) \<and>
         (rightHandLandmarks r = None \<longrightarrow>
            segment 522 21 (extractKeypoints_DeafUserInterface r) = replicate 21 (0, 0, 0) \<and>
            segment 54 21 (extractKeypoints_MediaPipeService r) = replicate 21 (0, 0, 0))"
proof -
  let ?p = "addPoints (poseLandmarks r) 33 []"
  let ?f = "addPoints (faceLandmarks r) 468 []"
  let ?l = "addPoints (leftHandLandmarks r) 21 []"
  let ?r = "addPoints (rightHandLandmarks r) 21 []"
  from wf have lp: "length ?p = 33" and lf: "length ?f = 468"
    and ll: "length ?l = 21" and lr: "length ?r = 21"
    by (simp_all add: mediapipe_results_def length_addPoints_ok)
  have d: "extractKeypoints_DeafUserInterface r = ?p @ ?f @ ?l @ ?r"
    by (rule extract_Deaf_append)
  have s: "extractKeypoints_MediaPipeService r = ?p @ ?l @ ?r @ ?f"
    by (rule extract_Service_append)
  have len_d: "length (extractKeypoints_DeafUserInterface r) = 543"
    by (simp add: d lp lf ll lr)
  have len_s: "length (extractKeypoints_MediaPipeService r) = 543"
    by (simp add: s lp lf ll lr)
  have pose_d: "segment 0 33 (extractKeypoints_DeafUserInterface r) = ?p"
    unfolding d by (rule segment_first [OF lp])
  have pose_s: "segment 0 33 (extractKeypoints_MediaPipeService r) = ?p"
    unfolding s by (rule segment_first [OF lp])
  have face_d: "segment 33 468 (extractKeypoints_DeafUserInterface r) = ?f"
    unfolding d by (rule segment_second [OF lp lf])
  have face_s: "segment 75 468 (extractKeypoints_MediaPipeService r) = ?f"
    unfolding s by (rule segment_fourth) (simp_all add: lp ll lr lf)
  have left_d: "segment 501 21 (extractKeypoints_DeafUserInterface r) = ?l"
    unfolding d by (rule segment_third) (simp_all add: lp lf ll)
  have left_s: "segment 33 21 (extractKeypoints_MediaPipeService r) = ?l"
    unfolding s by (rule segment_second [OF lp ll])
  have right_d: "segment 522 21 (extractKeypoints_DeafUserInterface r) = ?r"
    unfolding d by (rule segment_fourth) (simp_all add: lp lf ll lr)
  have right_s: "segment 54 21 (extractKeypoints_MediaPipeService r) = ?r"
    unfolding s by (rule segment_third) (simp_all add: lp ll lr)
  show ?thesis
    by (simp add: len_d len_s pose_d pose_s face_d face_s left_d left_s right_d right_s)
qed

theorem C1_keypoint_width_witness:
  "mediapipe_results no_detection \<and> mediapipe_results left_hand_only \<and>
   length (extractKeypoints_DeafUserInterface no_detection) = 543 \<and>
   length (extractKeypoints_MediaPipeService left_hand_only) = 543 \<and>
   segment 501 21 (extractKeypoints_DeafUserInterface no_detection) = replicate 21 (0, 0, 0) \<and>
   segment 33 468 (extractKeypoints_DeafUserInterface left_hand_only) = replicate 468 (0, 0, 0)"
proof -
  have a: "leftHandLandmarks no_detection = None"
    by (simp add: no_detection_def)
  have b: "faceLandmarks left_hand_only = None"
    by (simp add: left_hand_only_def no_detection_def)
  show ?thesis
    using C1_keypoint_width [OF mediapipe_results_no_detection]
      C1_keypoint_width [OF mediapipe_results_left_hand_only]
    by (simp add: mediapipe_results_no_detection mediapipe_results_left_hand_only a b)
qed

text \<open>
  Claim C2 says that all four extractors compute the same function. They do not: for a
  result in which only the left hand was detected, the live interface and the dataset
  processor leave index 33 (the first face point in their order) at zero, while the
  MediaPipe service and the video processor put the first left-hand point there.
\<close>

theorem C2_group_order_differs:
  "extractKeypoints_DeafUserInterface left_hand_only ! 33 = (0, 0, 0) \<and>
   extractKeypoints_DatasetProcessor left_hand_only ! 33 = (0, 0, 0) \<and>
   extractKeypoints_MediaPipeService left_hand_only ! 33 = (1, 1, 1) \<and>
   extractKeypoints_VideoProcessor left_hand_only ! 33 = (1, 1, 1) \<and>
   extractKeypoints_DeafUserInterface left_hand_only \<noteq>
     extractKeypoints_MediaPipeService left_hand_only"
proof -
  have d: "extractKeypoints_DeafUserInterface left_hand_only ! 33 = (0, 0, 0)"
    by (simp add: extract_Deaf_append left_hand_only_def no_detection_def nth_append)
  have s: "extractKeypoints_MediaPipeService left_hand_only ! 33 = (1, 1, 1)"
    by (simp add: extract_Service_append left_hand_only_def no_detection_def nth_append
        addPoints_def pushLandmarks_def hand_point_def)
  from d s have "extractKeypoints_DeafUserInterface left_hand_only \<noteq>
     extractKeypoints_MediaPipeService left_hand_only" by auto
  with d s show ?thesis by (simp add: extract_Dataset_eq extract_Video_eq)
qed

section \<open>The frame buffers\<close>

lemma numbered_Nil [simp]: "numbered []"
  by (simp add: numbered_def)

lemma numbered_snoc:
  "numbered fs \<Longrightarrow> numbered (fs @ [\<lparr>frame_id = length fs, keypoints = k\<rparr>])"
  by (simp add: numbered_def)

lemma live_inv_startRecording: "live_inv (startRecording s)"
  by (simp add: live_inv_def startRecording_def)

lemma framesRef_handleKeyPress [simp]:
  "framesRef (handleKeyPress t k s) = framesRef s"
  "frameCountRef (handleKeyPress t k s) = frameCountRef s"
  "recognize_calls (handleKeyPress t k s) = recognize_calls s"
  by (simp_all add: handleKeyPress_def Let_def split: option.splits)

lemma framesRef_processDemoSign_call [simp]:
  "framesRef (processDemoSign_call rnd sign s) = framesRef s"
  "frameCountRef (processDemoSign_call rnd sign s) = frameCountRef s"
  "recognize_calls (processDemoSign_call rnd sign s) = recognize_calls s"
  by (simp_all add: processDemoSign_call_def Let_def)

lemma framesRef_processDemoSign_resume [simp]:
  "framesRef (processDemoSign_resume rnd tr sign s) = framesRef s"
  "frameCountRef (processDemoSign_resume rnd tr sign s) = frameCountRef s"
  "recognize_calls (processDemoSign_resume rnd tr sign s) = recognize_calls s"
  by (simp_all add: processDemoSign_resume_def Let_def split: option.splits)

lemma framesRef_stopRecording [simp]:
  "framesRef (stopRecording rnd s) = framesRef s"
  "frameCountRef (stopRecording rnd s) = frameCountRef s"
  by (simp_all add: stopRecording_def Let_def split: option.splits)

lemma live_inv_handleMediaPipeResults:
  "live_inv s \<Longrightarrow> live_inv (handleMediaPipeResults r s)"
  by (simp add: live_inv_def handleMediaPipeResults_def Let_def numbered_snoc)

lemma live_inv_step: "live_inv s \<Longrightarrow> live_inv (live_step s e)"
proof (cases e)
  case StartRecording
  then show ?thesis by (simp add: live_inv_startRecording)
next
  case (StopRecording rnd)
  assume "live_inv s"
  with StopRecording show ?thesis by (simp add: live_inv_def)
next
  case (MediaPipeResults r)
  assume "live_inv s"
  with MediaPipeResults show ?thesis by (simp add: live_inv_handleMediaPipeResults)
next
  case (KeyPress t k)
  assume "live_inv s"
  with KeyPress show ?thesis by (simp add: live_inv_def)
next
  case (DemoTimerFires rnd tr)
  assume "live_inv s"
  with DemoTimerFires show ?thesis by (simp add: live_inv_def split: list.splits)
qed

lemma live_inv_run: "live_inv s \<Longrightarrow> live_inv (live_run evs s)"
  unfolding live_run_def
  by (induction evs arbitrary: s) (simp_all add: live_inv_step)

lemma live_inv_init: "live_inv live_init"
  by (simp add: live_inv_def live_init_def)

lemma buffer_inv_step: "buffer_inv s \<Longrightarrow> buffer_inv (session_step holistic v s e)"
  by (cases e)
    (auto simp add: buffer_inv_def processNextFrame_def onResults_def send_catch_def
      onended_def onerror_def play_catch_def Let_def numbered_snoc split: if_splits)

lemma buffer_inv_run: "buffer_inv s \<Longrightarrow> buffer_inv (session_run holistic v evs s)"
  unfolding session_run_def
  by (induction evs arbitrary: s) (simp_all add: buffer_inv_step)

text \<open>
  Claim C8. In every session the frame ids of the buffered frames are \<open>0, 1, ..., N - 1\<close>
  in buffer order: in the live interface after any sequence of events, from the initial
  state or from any \<open>startRecording\<close>, and in a video session of the dataset processor
  after any sequence of events. Starting a session empties the buffer and sets the
  counter to zero.
\<close>

theorem C8_frame_ids_contiguous:
  "map frame_id (framesRef (live_run evs live_init)) =
     [0..<length (framesRef (live_run evs live_init))] \<and>
   map frame_id (framesRef (live_run evs (startRecording l))) =
     [0..<length (framesRef (live_run evs (startRecording l)))] \<and>
   framesRef (startRecording l) = [] \<and> frameCountRef (startRecording l) = 0 \<and>
   map frame_id (frames (session_run holistic v vevs new_session)) =
     [0..<length (frames (session_run holistic v vevs new_session))] \<and>
   frames new_session = [] \<and> frameId new_session = 0"
proof -
  have "live_inv (live_run evs live_init)"
    by (rule live_inv_run [OF live_inv_init])
  moreover have "live_inv (live_run evs (startRecording l))"
    by (rule live_inv_run [OF live_inv_startRecording])
  moreover have "buffer_inv new_session"
    by (simp add: buffer_inv_def new_session_def)
  then have "buffer_inv (session_run holistic v vevs new_session)"
    by (rule buffer_inv_run)
  ultimately show ?thesis
    by (simp add: live_inv_def buffer_inv_def numbered_def startRecording_def new_session_def)
qed

section \<open>The in-flight flag\<close>







section \<open>Sessions that end with no frame\<close>

lemma session_zero_frames:
  "frames (session_run holistic v evs new_session) = [] \<Longrightarrow>
   saveData_calls (session_run holistic v evs new_session) = []"
proof -
  have "buffer_inv new_session"
    by (simp add: buffer_inv_def new_session_def)
  then have "buffer_inv (session_run holistic v evs new_session)"
    by (rule buffer_inv_run)
  then show "frames (session_run holistic v evs new_session) = [] \<Longrightarrow>
   saveData_calls (session_run holistic v evs new_session) = []"
    by (simp add: buffer_inv_def)
qed

lemma onended_zero_frames: "frames s = [] \<Longrightarrow> saveData_calls (onended v s) = saveData_calls s"
  by (simp add: onended_def Let_def)

lemma saveResults_zero_frames:
  "currentFramesRef s = [] \<Longrightarrow> save_posts (saveResults videoItem ok s) = save_posts s"
  by (simp add: saveResults_def vp_addLog_def)

lemma stopRecording_zero_frames:
  "framesRef s = [] \<Longrightarrow> recognize_calls (stopRecording rnd s) = recognize_calls s"
  by (simp add: stopRecording_def Let_def split: option.splits)

declare playVideo.simps [simp del]

lemma foldl_handleResults_posts [simp]:
  "save_posts (foldl (\<lambda>s r. handleResults r s) s rs) = save_posts s"
  by (induction rs arbitrary: s) (simp_all add: handleResults_def Let_def)

lemma foldl_handleResults_empty:
  "currentFramesRef (foldl (\<lambda>s r. handleResults r s) s rs) = [] \<longleftrightarrow>
   currentFramesRef s = [] \<and> rs = []"
  by (induction rs arbitrary: s) (auto simp add: handleResults_def Let_def)

lemma frames_saveResults [simp]:
  "currentFramesRef (saveResults v ok s) = currentFramesRef s"
  by (simp add: saveResults_def vp_addLog_def Let_def)

lemma playVideo_zero_frames:
  "currentFramesRef (playVideo env v k s) = [] \<Longrightarrow>
   save_posts (playVideo env v k s) = save_posts s"
proof (induction env v k s rule: playVideo.induct)
  case (1 env v k s)
  let ?s2 = "foldl (\<lambda>s r. handleResults r s)
     (s\<lparr>play_calls := play_calls s + 1, frame_loops := frame_loops s + 1\<rparr>) (delivered (env k))"
  show ?case
  proof (cases "k > 3")
    case True
    then show ?thesis
      by (simp add: playVideo.simps [of env v k s] vp_addLog_def Let_def)
  next
    case small: False
    show ?thesis
    proof (cases "play_result (env k)")
      case (PlayThrows msg)
      let ?s1 = "vp_addLog (''Error playing '' @ filename v @ '': '' @ msg)
                   (s\<lparr>play_calls := play_calls s + 1\<rparr>)"
      show ?thesis
      proof (cases "str_includes ''interrupted'' msg")
        case True
        with small PlayThrows have eq: "playVideo env v k s = playVideo env v (k + 1) ?s1"
          by (simp add: playVideo.simps [of env v k s] Let_def)
        from "1.prems" have empty: "currentFramesRef (playVideo env v (k + 1) ?s1) = []"
          by (simp add: eq)
        have "save_posts (playVideo env v (k + 1) ?s1) = save_posts ?s1"
          using "1.IH"(2) [OF small PlayThrows refl refl True] empty by simp
        then show ?thesis by (simp add: eq vp_addLog_def)
      next
        case False
        with small PlayThrows show ?thesis
          by (simp add: playVideo.simps [of env v k s] vp_addLog_def Let_def)
      qed
    next
      case PlayOk
      show ?thesis
      proof (cases "currentFramesRef ?s2 = []")
        case True
        with small PlayOk have eq: "playVideo env v k s = playVideo env v (k + 1) ?s2"
          by (simp add: playVideo.simps [of env v k s] Let_def)
        from "1.prems" have empty: "currentFramesRef (playVideo env v (k + 1) ?s2) = []"
          by (simp add: eq)
        have "save_posts (playVideo env v (k + 1) ?s2) = save_posts ?s2"
          using "1.IH"(1) [OF small PlayOk refl refl refl] True empty by simp
        then show ?thesis by (simp add: eq)
      next
        case False
        with small PlayOk have
          "currentFramesRef (playVideo env v k s) = currentFramesRef ?s2"
          by (simp add: playVideo.simps [of env v k s] Let_def)
        with False "1.prems" show ?thesis by simp
      qed
    qed
  qed
qed

lemma processFrame_zero_frames:
  assumes run: "processFrame env v i s = Some s'"
  shows "currentFramesRef s' = [] \<longrightarrow> save_posts s' = save_posts s"
proof (rule processFrame.raw_induct
    [where P = "\<lambda>env v i s s'. currentFramesRef s' = [] \<longrightarrow> save_posts s' = save_posts s",
      OF _ run])
  fix f env v i s y
  assume IH: "\<And>env v i s y. f env v i s = Some y \<Longrightarrow>
      currentFramesRef y = [] \<longrightarrow> save_posts y = save_posts s"
    and body: "(case env i of
        Unmounted \<Rightarrow> Some s
      | Stopped replay fetch_ok \<Rightarrow>
          (if length (currentFramesRef s) > 0
           then (let s = saveResults v fetch_ok s
                 in Some (s\<lparr>currentIndex := currentIndex s + 1\<rparr>))
           else (let s = vp_addLog (''No frames for '' @ filename v @ '' - RETRYING'') s;
                     s = s\<lparr>currentFramesRef := []\<rparr>;
                     s = s\<lparr>seeks := seeks s + 1\<rparr>;
                     s = s\<lparr>play_calls := play_calls s + 1\<rparr>
                 in case replay of
                      PlayOk \<Rightarrow> f env v (i + 1) s
                    | PlayThrows msg \<Rightarrow> Some s))
      | Running outcome \<Rightarrow>
          (case outcome of
             SendDelivers r \<Rightarrow> f env v (i + 1) (handleResults r s)
           | SendResolves \<Rightarrow> f env v (i + 1) s
           | SendRejects \<Rightarrow> Some s
           | SendNeverSettles \<Rightarrow> None)) = Some y"
  show "currentFramesRef y = [] \<longrightarrow> save_posts y = save_posts s"
  proof (cases "env i")
    case Unmounted
    with body show ?thesis by simp
  next
    case (Stopped replay fetch_ok)
    show ?thesis
    proof (cases "currentFramesRef s = []")
      case False
      with body Stopped show ?thesis by (auto simp add: Let_def)
    next
      case True
      show ?thesis
      proof (cases replay)
        case PlayOk
        with body Stopped True show ?thesis
          by (auto simp add: Let_def vp_addLog_def dest!: IH)
      next
        case (PlayThrows msg)
        with body Stopped True show ?thesis
          by (auto simp add: Let_def vp_addLog_def)
      qed
    qed
  next
    case (Running outcome)
    with body show ?thesis
      by (cases outcome) (auto simp add: handleResults_def Let_def dest!: IH)
  qed
qed




section \<open>The stall watchdog\<close>











section \<open>Stopping a recording\<close>

lemma stopRecording_submits:
  "framesRef s \<noteq> [] \<Longrightarrow> demoOverrideRef s = None \<Longrightarrow>
   recognize_calls (stopRecording rnd s) = recognize_calls s @ [framesRef s] \<and>
   demoOverrideRef (stopRecording rnd s) = None"
  by (simp add: stopRecording_def Let_def)

text \<open>
  Claim C3, as amended. \<open>stopRecording\<close> has no guard against a second call: each call
  made on a non-empty buffer with no demo override queued passes the buffer to the
  recognition service once, so two calls in immediate succession submit it twice.
\<close>

theorem C3_stop_submits_each_time:
  assumes "framesRef s \<noteq> []" and "demoOverrideRef s = None"
  shows "recognize_calls (stopRecording r1 s) = recognize_calls s @ [framesRef s] \<and>
         recognize_calls (stopRecording r2 (stopRecording r1 s)) =
           recognize_calls s @ [framesRef s, framesRef s]"
proof -
  have one: "recognize_calls (stopRecording r1 s) = recognize_calls s @ [framesRef s]"
    and none: "demoOverrideRef (stopRecording r1 s) = None"
    using stopRecording_submits [OF assms] by simp_all
  have "framesRef (stopRecording r1 s) \<noteq> []"
    using assms(1) by simp
  from stopRecording_submits [OF this none, of r2] one show ?thesis
    by simp
qed

lemma recording_one_frame_facts:
  "framesRef recording_one_frame \<noteq> []"
  "demoOverrideRef recording_one_frame = None"
  "isRecordingRef recording_one_frame"
  "recognize_calls recording_one_frame = []"
  "length (framesRef recording_one_frame) = 1"
  by (simp_all add: recording_one_frame_def handleMediaPipeResults_def startRecording_def
      live_init_def Let_def)

theorem C3_stop_submits_each_time_witness:
  "framesRef recording_one_frame \<noteq> [] \<and> demoOverrideRef recording_one_frame = None \<and>
   recognize_calls (stopRecording 0 (stopRecording 0 recording_one_frame)) =
     [framesRef recording_one_frame, framesRef recording_one_frame]"
  using C3_stop_submits_each_time [OF recording_one_frame_facts(1,2), of 0 0]
  by (simp add: recording_one_frame_facts)

text \<open>
  Claim C3 as stated fails: from a recording with one frame, two calls of
  \<open>stopRecording\<close> in succession leave two calls of the recognition service.
\<close>

theorem C3_double_stop_counterexample:
  "isRecordingRef recording_one_frame \<and>
   length (recognize_calls recording_one_frame) = 0 \<and>
   length (recognize_calls (stopRecording 0 recording_one_frame)) = 1 \<and>
   length (recognize_calls (stopRecording 0 (stopRecording 0 recording_one_frame))) = 2"
  using stopRecording_submits [OF recording_one_frame_facts(1,2), of 0]
  by (simp add: recording_one_frame_facts stopRecording_def Let_def)

section \<open>The demo override\<close>

lemma parseInt_digit_keys:
  "parseInt ''1'' = Some 1" "parseInt ''2'' = Some 2" "parseInt ''3'' = Some 3"
  "parseInt ''4'' = Some 4" "parseInt ''5'' = Some 5"
  by (simp_all add: parseInt_def digit_val_def is_space_def Let_def)

lemma show_nat_digit_keys:
  "show_nat 1 = ''1''" "show_nat 2 = ''2''" "show_nat 3 = ''3''"
  "show_nat 4 = ''4''" "show_nat 5 = ''5''"
  by (simp_all add: show_nat.simps [of 1] show_nat.simps [of 2] show_nat.simps [of 3]
      show_nat.simps [of 4] show_nat.simps [of 5])

lemma length_demoSigns: "length demoSigns = 5"
  by (simp add: demoSigns_def)


lemma handleKeyPress_digit:
  assumes "tagName \<noteq> ''INPUT''" and "tagName \<noteq> ''TEXTAREA''" and "n < 5"
  shows "handleKeyPress tagName (show_nat (n + 1)) s = s\<lparr>demoOverrideRef := Some (demoSigns ! n)\<rparr>"
proof -
  from \<open>n < 5\<close> consider "n = 0" | "n = 1" | "n = 2" | "n = 3" | "n = 4"
    by linarith
  then show ?thesis
    using assms(1,2)
    by cases
      (simp_all add: handleKeyPress_def show_nat_digit_keys parseInt_digit_keys
        length_demoSigns Let_def)
qed

subsection \<open>Rounding to a double\<close>

lemma round_even_err: "\<bar>of_int (round_even y) - y\<bar> \<le> 1 / 2"
  unfolding round_even_def Let_def by (auto split: if_splits)

lemma round_even_nonneg: "0 \<le> y \<Longrightarrow> 0 \<le> round_even y"
  unfolding round_even_def Let_def by (auto split: if_splits)

lemma round_even_of_int [simp]: "round_even (of_int k) = k"
  by (simp add: round_even_def)

lemma pow2_powr: "pow2 e = 2 powr of_int e"
  by (simp add: pow2_def powr_int)

lemma pow2_pos: "0 < pow2 e"
  by (simp add: pow2_powr)

lemma pow2_shift: "pow2 (e - 52) = pow2 e / 2 ^ 52"
  by (simp add: pow2_powr powr_diff)

lemma pow2_mono: "a \<le> b \<Longrightarrow> pow2 a \<le> pow2 b"
  by (simp add: pow2_powr)

lemma round_double_nonneg:
  assumes "0 \<le> x"
  shows "0 \<le> round_double x"
proof (cases "x = 0")
  case True
  then show ?thesis by (simp add: round_double_def)
next
  case False
  let ?u = "pow2 (double_exponent x - 52)"
  have "0 \<le> x / ?u"
    using assms pow2_pos [of "double_exponent x - 52"] by simp
  then have "0 \<le> round_even (x / ?u)"
    by (rule round_even_nonneg)
  then have "0 \<le> of_int (round_even (x / ?u)) * ?u"
    using pow2_pos [of "double_exponent x - 52"] by simp
  with False show ?thesis
    by (simp add: round_double_def Let_def)
qed

lemma exponent_set_finite:
  "finite (insert (- 1022) (Set.filter (\<lambda>e. pow2 e \<le> \<bar>x\<bar>) {- 1022..1023}))"
proof -
  have "Set.filter (\<lambda>e. pow2 e \<le> \<bar>x\<bar>) {- 1022..1023} \<subseteq> {- 1022..1023}"
    by auto
  then have "finite (Set.filter (\<lambda>e. pow2 e \<le> \<bar>x\<bar>) {- 1022..1023})"
    by (rule finite_subset) simp
  then show ?thesis by simp
qed

lemma double_exponent_cases:
  "double_exponent x = - 1022 \<or> pow2 (double_exponent x) \<le> \<bar>x\<bar>"
proof -
  let ?S = "insert (- 1022) (Set.filter (\<lambda>e. pow2 e \<le> \<bar>x\<bar>) {- 1022..1023})"
  have "Max ?S \<in> ?S"
    by (rule Max_in) (simp_all only: exponent_set_finite insert_not_empty not_False_eq_True)
  then show ?thesis
    by (auto simp add: double_exponent_def)
qed

lemma round_double_err:
  "\<bar>round_double x - x\<bar> \<le> \<bar>x\<bar> / 2 ^ 53 + 1 / 2 ^ 1075"
proof (cases "x = 0")
  case True
  then show ?thesis by (simp add: round_double_def)
next
  case False
  define e where "e = double_exponent x"
  define u :: real where "u = pow2 (e - 52)"
  have u0: "0 < u" by (simp add: u_def pow2_pos)
  have rd: "round_double x = of_int (round_even (x / u)) * u"
    using False by (simp add: round_double_def Let_def u_def e_def)
  have "of_int (round_even (x / u)) * u - x = (of_int (round_even (x / u)) - x / u) * u"
    using u0 by (simp add: field_simps)
  then have "\<bar>of_int (round_even (x / u)) * u - x\<bar> =
      \<bar>of_int (round_even (x / u)) - x / u\<bar> * u"
    using u0 by (simp add: abs_mult)
  also have "\<dots> \<le> 1 / 2 * u"
    using u0 round_even_err [of "x / u"] by (intro mult_right_mono) simp_all
  finally have half: "\<bar>round_double x - x\<bar> \<le> u / 2"
    by (simp add: rd)
  from double_exponent_cases [of x] have "u / 2 \<le> \<bar>x\<bar> / 2 ^ 53 + 1 / 2 ^ 1075"
  proof
    assume "double_exponent x = - 1022"
    then have "u = 1 / 2 ^ 1074"
      by (simp add: u_def e_def pow2_def)
    then have "u / 2 = 1 / 2 ^ 1075" by simp
    then show ?thesis by simp
  next
    assume "pow2 (double_exponent x) \<le> \<bar>x\<bar>"
    then have "pow2 e \<le> \<bar>x\<bar>" by (simp add: e_def)
    moreover have "u = pow2 e / 2 ^ 52"
      unfolding u_def by (rule pow2_shift)
    ultimately have "u / 2 \<le> \<bar>x\<bar> / 2 ^ 53"
      by (simp add: field_simps)
    then show ?thesis by (simp add: add_increasing2)
  qed
  with half show ?thesis by linarith
qed

text \<open>A coarse form of the bound, enough for every number met below.\<close>

lemma round_double_close:
  assumes "\<bar>x\<bar> \<le> 2000"
  shows "\<bar>round_double x - x\<bar> \<le> 1 / 10 ^ 12"
proof -
  have "\<bar>x\<bar> / 2 ^ 53 \<le> 2000 / 2 ^ 53"
    using assms by (simp add: divide_right_mono)
  moreover have "(2000 :: real) / 2 ^ 53 + 1 / 2 ^ 1075 \<le> 1 / 10 ^ 12"
    by simp
  ultimately show ?thesis
    using round_double_err [of x] by linarith
qed

lemma double_exponent_eval:
  assumes "- 1022 \<le> e" and "e \<le> 1023" and "pow2 e \<le> \<bar>x\<bar>" and "\<bar>x\<bar> < pow2 (e + 1)"
  shows "double_exponent x = e"
  unfolding double_exponent_def
proof (rule Max_eqI)
  show "finite (insert (- 1022) (Set.filter (\<lambda>e. pow2 e \<le> \<bar>x\<bar>) {- 1022..1023}))"
    by (rule exponent_set_finite)
  show "e \<in> insert (- 1022) (Set.filter (\<lambda>e. pow2 e \<le> \<bar>x\<bar>) {- 1022..1023})"
    using assms by simp
  fix y
  assume "y \<in> insert (- 1022) (Set.filter (\<lambda>e. pow2 e \<le> \<bar>x\<bar>) {- 1022..1023})"
  then consider "y = - 1022" | "pow2 y \<le> \<bar>x\<bar>"
    by auto
  then show "y \<le> e"
  proof cases
    case 1
    with assms(1) show ?thesis by simp
  next
    case 2
    show ?thesis
    proof (rule ccontr)
      assume "\<not> y \<le> e"
      then have "pow2 (e + 1) \<le> pow2 y"
        by (intro pow2_mono) simp
      with 2 assms(4) show False by linarith
    qed
  qed
qed

lemma round_double_eval:
  assumes "x \<noteq> 0" and "- 1022 \<le> e" and "e \<le> 1023"
    and "pow2 e \<le> \<bar>x\<bar>" and "\<bar>x\<bar> < pow2 (e + 1)"
  shows "round_double x = of_int (round_even (x / pow2 (e - 52))) * pow2 (e - 52)"
  using assms(1) double_exponent_eval [OF assms(2-5)]
  by (simp add: round_double_def Let_def)

text \<open>The largest double below one is \<open>1 - 2^-53\<close>.\<close>

lemma is_double_below_one:
  assumes "is_double x" and "x < 1"
  shows "x \<le> 1 - 1 / 2 ^ 53"
proof (cases "x < 1 / 2")
  case True
  have "(1 :: real) / 2 \<le> 1 - 1 / 2 ^ 53" by simp
  with True show ?thesis by linarith
next
  case False
  then have x: "x \<noteq> 0" "pow2 (- 1) \<le> \<bar>x\<bar>" "\<bar>x\<bar> < pow2 (- 1 + 1)"
    using assms(2) by (simp_all add: pow2_def)
  define k where "k = round_even (x / pow2 (- 1 - 52))"
  from round_double_eval [OF x(1) _ _ x(2,3)] assms(1)
  have "x = of_int k * pow2 (- 1 - 52)"
    by (simp add: is_double_def k_def)
  then have xk: "x = of_int k / 2 ^ 53"
    by (simp add: pow2_def)
  with assms(2) have "real_of_int k < 9007199254740992" by simp
  then have "k < 9007199254740992" by linarith
  then have "k \<le> 9007199254740991" by simp
  then have "real_of_int k \<le> 9007199254740991" by linarith
  then show ?thesis
    by (simp add: xk field_simps)
qed

subsection \<open>The delay and the confidence of the demo override\<close>

lemma demo_delay_range:
  assumes "is_double rnd" and "0 \<le> rnd" and "rnd < 1"
  shows "800 \<le> \<lfloor>js_mul rnd 1400\<rfloor> + 800 \<and> \<lfloor>js_mul rnd 1400\<rfloor> + 800 \<le> 2199"
proof -
  let ?z = "rnd * 1400"
  from assms(2) have z0: "0 \<le> ?z" by simp
  then have lo: "0 \<le> round_double ?z" by (rule round_double_nonneg)
  from is_double_below_one [OF assms(1,3)] have zle: "?z \<le> 1400 - 1400 / 2 ^ 53"
    by simp
  have "round_double ?z \<le> ?z + ?z / 2 ^ 53 + 1 / 2 ^ 1075"
    using round_double_err [of ?z] z0 by simp
  moreover have "(1400 - 1400 / 2 ^ 53) + (1400 - 1400 / 2 ^ 53) / 2 ^ 53 + 1 / 2 ^ 1075
      < (1400 :: real)"
    by simp
  moreover have "?z / 2 ^ 53 \<le> (1400 - 1400 / 2 ^ 53) / 2 ^ 53"
    using zle by (intro divide_right_mono) simp_all
  ultimately have "round_double ?z < 1400"
    using zle by linarith
  with lo have "0 \<le> \<lfloor>round_double ?z\<rfloor>" and "\<lfloor>round_double ?z\<rfloor> < 1400"
    by (simp_all add: floor_less_iff)
  then show ?thesis by (simp add: js_mul_def)
qed

lemma demo_confidence_hundredths:
  assumes "0 \<le> rnd" and "rnd < 1"
  defines "x \<equiv> js_add (js_mul rnd (js_sub (round_double 0.94) (round_double 0.82)))
                  (round_double 0.82)"
  shows "demo_confidence rnd = toFixed_units 2 x \<and>
         82 \<le> toFixed_units 2 x \<and> toFixed_units 2 x \<le> 94"
proof -
  define \<delta> :: real where "\<delta> = 1 / 10 ^ 12"
  define a where "a = round_double 0.94"
  define b where "b = round_double 0.82"
  define d where "d = js_sub a b"
  define p where "p = js_mul rnd d"
  have close: "\<bar>round_double y - y\<bar> \<le> \<delta>" if "\<bar>y\<bar> \<le> 2000" for y
    unfolding \<delta>_def using that by (rule round_double_close)
  have \<delta>: "\<delta> = 1 / 1000000000000" by (simp add: \<delta>_def)
  have a: "\<bar>a - 94 / 100\<bar> \<le> \<delta>"
    unfolding a_def using close [of "0.94"] by simp
  have b: "\<bar>b - 82 / 100\<bar> \<le> \<delta>"
    unfolding b_def using close [of "0.82"] by simp
  have "\<bar>a - b\<bar> \<le> 2000" using a b \<delta> by linarith
  then have "\<bar>d - (a - b)\<bar> \<le> \<delta>"
    unfolding d_def js_sub_def by (rule close)
  with a b have d: "12 / 100 - 3 * \<delta> \<le> d" "d \<le> 12 / 100 + 3 * \<delta>"
    by linarith+
  then have d0: "0 \<le> d" using \<delta> by linarith
  have rd0: "0 \<le> rnd * d" using assms(1) d0 by simp
  have "rnd * d \<le> 1 * d"
    using assms(2) d0 by (intro mult_right_mono) simp_all
  then have rd1: "rnd * d \<le> 12 / 100 + 3 * \<delta>" using d by linarith
  have p0: "0 \<le> p"
    unfolding p_def js_mul_def using rd0 by (rule round_double_nonneg)
  have "\<bar>rnd * d\<bar> \<le> 2000" using rd0 rd1 \<delta> by linarith
  then have "\<bar>p - rnd * d\<bar> \<le> \<delta>"
    unfolding p_def js_mul_def by (rule close)
  with rd1 have p1: "p \<le> 12 / 100 + 4 * \<delta>" by linarith
  have xdef: "x = round_double (p + b)"
    by (simp add: x_def js_add_def p_def d_def a_def b_def)
  have "\<bar>p + b\<bar> \<le> 2000" using p0 p1 b \<delta> by linarith
  then have "\<bar>x - (p + b)\<bar> \<le> \<delta>"
    unfolding xdef by (rule close)
  with p0 p1 b have x: "82 / 100 - 2 * \<delta> \<le> x" "x \<le> 94 / 100 + 6 * \<delta>"
    by linarith+
  define n where "n = toFixed_units 2 x"
  have x0: "\<not> x < 0" using x \<delta> by linarith
  then have n: "n = \<lfloor>x * 100 + 1 / 2\<rfloor>"
    by (simp add: n_def toFixed_units_def)
  have "82 \<le> x * 100 + 1 / 2" and "x * 100 + 1 / 2 < 95"
    using x \<delta> by linarith+
  then have "82 \<le> n" and "n < 95"
    unfolding n by (simp_all add: le_floor_iff floor_less_iff)
  then have n82: "82 \<le> n" and n94: "n \<le> 94" by simp_all
  define q where "q = round_double (of_int n / 100)"
  define y where "y = js_mul q 100"
  have nr: "82 \<le> real_of_int n" "real_of_int n \<le> 94"
    using n82 n94 by simp_all
  then have "\<bar>real_of_int n / 100\<bar> \<le> 2000" by simp
  then have q: "\<bar>q - of_int n / 100\<bar> \<le> \<delta>"
    unfolding q_def by (rule close)
  then have q100: "\<bar>q * 100 - of_int n\<bar> \<le> 100 * \<delta>" by linarith
  then have "\<bar>q * 100\<bar> \<le> 2000" using nr \<delta> by linarith
  then have "\<bar>y - q * 100\<bar> \<le> \<delta>"
    unfolding y_def js_mul_def by (rule close)
  with q100 have y: "\<bar>y - of_int n\<bar> \<le> 101 * \<delta>" by linarith
  then have y0: "\<not> y < 0" using nr \<delta> by linarith
  have "of_int n \<le> y + 1 / 2" and "y + 1 / 2 < of_int n + 1"
    using y \<delta> by linarith+
  then have "\<lfloor>y + 1 / 2\<rfloor> = n"
    by (simp add: floor_eq_iff)
  with y0 have "toFixed_units 0 y = n"
    by (simp add: toFixed_units_def)
  then have "demo_confidence rnd = n"
    by (simp add: demo_confidence_def Let_def y_def q_def n_def x_def)
  with n82 n94 show ?thesis
    by (simp add: n_def)
qed


text \<open>The numbers of one run, computed on doubles.\<close>

lemma double_094: "round_double 0.94 = 8466767299456532 / 2 ^ 53"
proof -
  have "round_double 0.94 =
      of_int (round_even (0.94 / pow2 (- 1 - 52))) * pow2 (- 1 - 52)"
    by (rule round_double_eval) (simp_all add: pow2_def)
  also have "\<dots> = 8466767299456532 / 2 ^ 53"
    by (simp add: pow2_def round_even_def Let_def)
  finally show ?thesis .
qed

lemma double_082: "round_double 0.82 = 7385903388887613 / 2 ^ 53"
proof -
  have "round_double 0.82 =
      of_int (round_even (0.82 / pow2 (- 1 - 52))) * pow2 (- 1 - 52)"
    by (rule round_double_eval) (simp_all add: pow2_def)
  also have "\<dots> = 7385903388887613 / 2 ^ 53"
    by (simp add: pow2_def round_even_def Let_def)
  finally show ?thesis .
qed

lemma double_012:
  "js_sub (round_double 0.94) (round_double 0.82) = 8646911284551352 / 2 ^ 56"
proof -
  let ?x = "(8466767299456532 / 2 ^ 53 - 7385903388887613 / 2 ^ 53) :: real"
  have "round_double ?x =
      of_int (round_even (?x / pow2 (- 4 - 52))) * pow2 (- 4 - 52)"
    by (rule round_double_eval) (simp_all add: pow2_def)
  also have "\<dots> = 8646911284551352 / 2 ^ 56"
    by (simp add: pow2_def round_even_def Let_def)
  finally show ?thesis
    by (simp only: js_sub_def double_094 double_082)
qed

lemma demo_sum_eighth:
  "js_add (js_mul (1 / 8) (js_sub (round_double 0.94) (round_double 0.82))) (round_double 0.82) =
   7521011377708728 / 2 ^ 53"
proof -
  let ?p = "(1 / 8 * (8646911284551352 / 2 ^ 56)) :: real"
  have "round_double ?p =
      of_int (round_even (?p / pow2 (- 7 - 52))) * pow2 (- 7 - 52)"
    by (rule round_double_eval) (simp_all add: pow2_def)
  also have "\<dots> = 8646911284551352 / 2 ^ 59"
    by (simp add: pow2_def round_even_def Let_def)
  finally have p: "js_mul (1 / 8) (8646911284551352 / 2 ^ 56) = 8646911284551352 / 2 ^ 59"
    by (simp only: js_mul_def)
  let ?x = "(8646911284551352 / 2 ^ 59 + 7385903388887613 / 2 ^ 53) :: real"
  have "round_double ?x =
      of_int (round_even (?x / pow2 (- 1 - 52))) * pow2 (- 1 - 52)"
    by (rule round_double_eval) (simp_all add: pow2_def)
  also have "\<dots> = 7521011377708728 / 2 ^ 53"
    by (simp add: pow2_def round_even_def Let_def)
  finally have x: "js_add (8646911284551352 / 2 ^ 59) (7385903388887613 / 2 ^ 53) =
      7521011377708728 / 2 ^ 53"
    by (simp only: js_add_def)
  have "js_add (js_mul (1 / 8) (js_sub (round_double 0.94) (round_double 0.82)))
          (round_double 0.82) =
        js_add (js_mul (1 / 8) (8646911284551352 / 2 ^ 56)) (round_double 0.82)"
    by (simp only: double_012)
  also have "\<dots> = js_add (8646911284551352 / 2 ^ 59) (7385903388887613 / 2 ^ 53)"
    by (simp only: p double_082)
  finally show ?thesis
    by (simp only: x)
qed

lemma demo_confidence_eighth: "demo_confidence (1 / 8) = 83"
proof -
  have h: "(0 :: real) \<le> 1 / 8" "(1 / 8 :: real) < 1"
    by simp_all
  have "demo_confidence (1 / 8) = toFixed_units 2 (7521011377708728 / 2 ^ 53)"
    using demo_confidence_hundredths [OF h, THEN conjunct1] by (simp only: demo_sum_eighth)
  also have "\<dots> = 83"
    by (simp add: toFixed_units_def)
  finally show ?thesis .
qed

lemma sample_random_is_double: "is_double (114198419122609 / 2251799813685248)"
proof -
  let ?x = "(114198419122609 / 2251799813685248) :: real"
  have "round_double ?x =
      of_int (round_even (?x / pow2 (- 5 - 52))) * pow2 (- 5 - 52)"
    by (rule round_double_eval) (simp_all add: pow2_def)
  also have "\<dots> = ?x"
    by (simp add: pow2_def round_even_def Let_def)
  finally show ?thesis
    by (simp only: is_double_def)
qed

lemma sample_random_delay: "\<lfloor>js_mul (114198419122609 / 2251799813685248) 1400\<rfloor> + 800 = 871"
proof -
  let ?z = "(114198419122609 / 2251799813685248 * 1400) :: real"
  have "round_double ?z =
      of_int (round_even (?z / pow2 (6 - 52))) * pow2 (6 - 52)"
    by (rule round_double_eval) (simp_all add: pow2_def)
  also have "\<dots> = 71"
    by (simp add: pow2_def round_even_def Let_def)
  finally show ?thesis
    by (simp add: js_mul_def)
qed


text \<open>
  Claim C10. Pressing a digit key 1 to 5 outside an input field queues the demo sign of
  that number. A \<open>stopRecording\<close> in that state makes no call of the recognition
  service, whatever the buffer holds, and sets a timer of 800 to 2199 milliseconds for
  the rest of \<open>processDemoSign\<close>; when that rest runs, still no call is made, and the
  text shown is the label of the queued sign followed by a confidence computed from a
  second random number: the hundredths of \<open>rnd * (0.94 - 0.82) + 0.82\<close> as evaluated
  on doubles, a number between 82 and 94.
\<close>

theorem C10_demo_override:
  assumes "tagName \<noteq> ''INPUT''" and "tagName \<noteq> ''TEXTAREA''" and "n < 5"
    and "is_double rnd1" and "0 \<le> rnd1" and "rnd1 < 1" and "0 \<le> rnd2" and "rnd2 < 1"
  shows "(let queued = handleKeyPress tagName (show_nat (n + 1)) s;
              stopped = stopRecording rnd1 queued;
              shown = processDemoSign_resume rnd2 translation (demoSigns ! n) stopped;
              delay = \<lfloor>js_mul rnd1 1400\<rfloor> + 800
          in demoOverrideRef queued = Some (demoSigns ! n) \<and>
             recognize_calls stopped = recognize_calls s \<and>
             demo_timers stopped = demo_timers s @ [(delay, demoSigns ! n)] \<and>
             800 \<le> delay \<and> delay \<le> 2199 \<and>
             recognize_calls shown = recognize_calls s \<and>
             recognizedText shown =
               label (demoSigns ! n) @ '' ('' @ show_int (demo_confidence rnd2) @
               ''% confidence)'' \<and>
             demo_confidence rnd2 =
               toFixed_units 2
                 (js_add (js_mul rnd2 (js_sub (round_double 0.94) (round_double 0.82)))
                    (round_double 0.82)) \<and>
             82 \<le> demo_confidence rnd2 \<and> demo_confidence rnd2 \<le> 94)"
proof -
  define queued where "queued = handleKeyPress tagName (show_nat (n + 1)) s"
  define stopped where "stopped = stopRecording rnd1 queued"
  define shown where "shown = processDemoSign_resume rnd2 translation (demoSigns ! n) stopped"
  have q: "queued = s\<lparr>demoOverrideRef := Some (demoSigns ! n)\<rparr>"
    unfolding queued_def using assms(1-3) by (rule handleKeyPress_digit)
  have q1: "demoOverrideRef queued = Some (demoSigns ! n)"
    by (simp add: q)
  have st: "stopped = processDemoSign_call rnd1 (demoSigns ! n)
      (queued\<lparr>isRecording := False, isRecordingRef := False\<rparr>)"
    by (simp add: stopped_def stopRecording_def q1 Let_def)
  have st1: "recognize_calls stopped = recognize_calls s"
    by (simp add: st q)
  have st2: "demo_timers stopped = demo_timers s @ [(\<lfloor>js_mul rnd1 1400\<rfloor> + 800, demoSigns ! n)]"
    by (simp add: st q processDemoSign_call_def Let_def)
  have sh1: "recognize_calls shown = recognize_calls s"
    unfolding shown_def by (simp add: st1)
  have sh2: "recognizedText shown =
      label (demoSigns ! n) @ '' ('' @ show_int (demo_confidence rnd2) @ ''% confidence)''"
    unfolding shown_def
    by (cases translation) (simp_all add: processDemoSign_resume_def Let_def)
  note d = demo_delay_range [OF assms(4,5,6)]
  note c = demo_confidence_hundredths [OF assms(7,8)]
  have "demoOverrideRef queued = Some (demoSigns ! n) \<and>
        recognize_calls stopped = recognize_calls s \<and>
        demo_timers stopped = demo_timers s @ [(\<lfloor>js_mul rnd1 1400\<rfloor> + 800, demoSigns ! n)] \<and>
        800 \<le> \<lfloor>js_mul rnd1 1400\<rfloor> + 800 \<and> \<lfloor>js_mul rnd1 1400\<rfloor> + 800 \<le> 2199 \<and>
        recognize_calls shown = recognize_calls s \<and>
        recognizedText shown =
          label (demoSigns ! n) @ '' ('' @ show_int (demo_confidence rnd2) @
          ''% confidence)'' \<and>
        demo_confidence rnd2 =
          toFixed_units 2
            (js_add (js_mul rnd2 (js_sub (round_double 0.94) (round_double 0.82)))
               (round_double 0.82)) \<and>
        82 \<le> demo_confidence rnd2 \<and> demo_confidence rnd2 \<le> 94"
    using q1 st1 st2 sh1 sh2 d c by simp
  then show ?thesis
    unfolding Let_def queued_def stopped_def shown_def .
qed

lemma recording_one_frame_timers: "demo_timers recording_one_frame = []"
  by (simp add: recording_one_frame_def handleMediaPipeResults_def startRecording_def
      live_init_def Let_def)

lemma show_int_83: "show_int 83 = ''83''"
  by (simp add: show_int_def show_nat.simps [of 83] show_nat.simps [of 8])

lemma demoSigns_first:
  "demoSigns ! 0 = \<lparr>sign_id = ''hello'',
       label = ''Hello '' @ [CHR 0xF0, CHR 0x9F, CHR 0x91, CHR 0x8B],
       sign_text = ''hello''\<rparr>"
  by (simp add: demoSigns_def)

theorem C10_demo_override_witness:
  "''BODY'' \<noteq> ''INPUT'' \<and> ''BODY'' \<noteq> ''TEXTAREA'' \<and> (0 :: nat) < 5 \<and>
   is_double (114198419122609 / 2251799813685248) \<and>
   (0 :: real) \<le> 114198419122609 / 2251799813685248 \<and>
   (114198419122609 / 2251799813685248 :: real) < 1 \<and>
   (0 :: real) \<le> 1 / 8 \<and> (1 / 8 :: real) < 1 \<and>
   framesRef recording_one_frame \<noteq> [] \<and>
   demoOverrideRef (handleKeyPress ''BODY'' ''1'' recording_one_frame) = Some (demoSigns ! 0) \<and>
   recognize_calls
     (stopRecording (114198419122609 / 2251799813685248)
        (handleKeyPress ''BODY'' ''1'' recording_one_frame)) = [] \<and>
   demo_timers
     (stopRecording (114198419122609 / 2251799813685248)
        (handleKeyPress ''BODY'' ''1'' recording_one_frame)) = [(871, demoSigns ! 0)] \<and>
   demo_confidence (1 / 8) = 83 \<and>
   recognizedText
     (live_run [KeyPress ''BODY'' ''1'', StopRecording (114198419122609 / 2251799813685248),
                DemoTimerFires (1 / 8) None] recording_one_frame) =
     ''Hello '' @ [CHR 0xF0, CHR 0x9F, CHR 0x91, CHR 0x8B] @ '' (83% confidence)'' \<and>
   recognize_calls
     (live_run [KeyPress ''BODY'' ''1'', StopRecording (114198419122609 / 2251799813685248),
                DemoTimerFires (1 / 8) None] recording_one_frame) = []"
proof -
  let ?r = "(114198419122609 / 2251799813685248) :: real"
  have h: "''BODY'' \<noteq> ''INPUT''" "''BODY'' \<noteq> ''TEXTAREA''" "(0 :: nat) < 5"
    "is_double ?r" "0 \<le> ?r" "?r < 1" "(0 :: real) \<le> 1 / 8" "(1 / 8 :: real) < 1"
    by (simp_all add: sample_random_is_double)
  have k: "show_nat (0 + 1) = ''1''"
    by (simp add: show_nat_digit_keys)
  note inst = C10_demo_override [OF h, of recording_one_frame None,
      unfolded Let_def k sample_random_delay]
  let ?stopped = "stopRecording ?r (handleKeyPress ''BODY'' ''1'' recording_one_frame)"
  from inst have timers: "demo_timers ?stopped = [(871, demoSigns ! 0)]"
    by (simp add: recording_one_frame_timers)
  have run: "live_run [KeyPress ''BODY'' ''1'', StopRecording ?r, DemoTimerFires (1 / 8) None]
        recording_one_frame =
      processDemoSign_resume (1 / 8) None (demoSigns ! 0) (?stopped\<lparr>demo_timers := []\<rparr>)"
    by (simp add: live_run_def timers)
  have same: "recognizedText (processDemoSign_resume r t g (x\<lparr>demo_timers := ts\<rparr>)) =
      recognizedText (processDemoSign_resume r t g x)" for r t g x ts
    by (cases t) (simp_all add: processDemoSign_resume_def Let_def)
  from inst have shown_text: "recognizedText (processDemoSign_resume (1 / 8) None (demoSigns ! 0) ?stopped) =
      label (demoSigns ! 0) @ '' ('' @ show_int (demo_confidence (1 / 8)) @ ''% confidence)''"
    by blast
  from inst have calls: "recognize_calls ?stopped = recognize_calls recording_one_frame"
    and override: "demoOverrideRef (handleKeyPress ''BODY'' ''1'' recording_one_frame) =
      Some (demoSigns ! 0)"
    by blast+
  show ?thesis
    using h shown_text
    by (simp add: run same timers calls override recording_one_frame_facts
        demo_confidence_eighth show_int_83 demoSigns_first)
qed

section \<open>Recycling the engine\<close>

lemma holisticRef_createHolisticInstance:
  "holisticRef b \<noteq> None \<Longrightarrow>
   holisticRef (createHolisticInstance b) \<noteq> None \<and>
   length (closed (createHolisticInstance b)) = length (closed b) + 1 \<and>
   processedCount (createHolisticInstance b) = processedCount b"
  by (auto simp add: createHolisticInstance_def Let_def)

lemma startProcessing_loop_recycles:
  assumes "\<forall>j \<in> set js. \<not> executor_throws j \<and> (\<forall>h. resolved (session_run h (job_video j) (job_events j) new_session))"
    and "holisticRef b \<noteq> None"
  shows "\<exists>b'. startProcessing_loop captured js b = Some b' \<and>
           recycles b' =
             recycles b + (if captured > 0 \<and> captured mod 20 = 0 then length js else 0) \<and>
           processedCount b' = processedCount b + length js \<and>
           holisticRef b' \<noteq> None"
  using assms
proof (induction js arbitrary: b)
  case Nil
  then show ?case by (simp add: recycles_def)
next
  case (Cons j js)
  let ?b1 = "if captured > 0 \<and> captured mod 20 = 0 then createHolisticInstance b else b"
  let ?b2 = "?b1\<lparr>handles_used := handles_used ?b1 @ [holisticRef ?b1]\<rparr>"
  let ?s = "session_run (holisticRef ?b2) (job_video j) (job_events j) new_session"
  let ?b3 = "?b2\<lparr>saveData_posts :=
                     saveData_posts ?b2 @ map (Pair (filename (job_video j))) (saveData_calls ?s),
                   processedCount := processedCount ?b2 + 1\<rparr>"
  from Cons.prems(1) have j: "\<not> executor_throws j \<and> (\<forall>h. resolved (session_run h (job_video j) (job_events j) new_session))"
    and js: "\<forall>j \<in> set js. \<not> executor_throws j \<and> (\<forall>h. resolved (session_run h (job_video j) (job_events j) new_session))"
    by simp_all
  from j have p: "processVideoSimple (holisticRef ?b2) j = Resolved ?s"
    by (simp add: processVideoSimple_def Let_def)
  have step: "startProcessing_loop captured (j # js) b = startProcessing_loop captured js ?b3"
    using p by (simp add: Let_def)
  have h1: "holisticRef ?b1 \<noteq> None"
    and c1: "length (closed ?b1) =
        length (closed b) + (if captured > 0 \<and> captured mod 20 = 0 then 1 else 0)"
    and n1: "processedCount ?b1 = processedCount b"
    using holisticRef_createHolisticInstance [OF Cons.prems(2)] Cons.prems(2) by auto
  have h3: "holisticRef ?b3 \<noteq> None" using h1 by simp
  from Cons.IH [OF js h3] obtain b' where
    r: "startProcessing_loop captured js ?b3 = Some b'"
    and c: "recycles b' =
        recycles ?b3 + (if captured > 0 \<and> captured mod 20 = 0 then length js else 0)"
    and n: "processedCount b' = processedCount ?b3 + length js"
    and h: "holisticRef b' \<noteq> None"
    by blast
  have "recycles ?b3 = recycles b + (if captured > 0 \<and> captured mod 20 = 0 then 1 else 0)"
    using c1 by (simp add: recycles_def)
  with c have "recycles b' =
      recycles b + (if captured > 0 \<and> captured mod 20 = 0 then length (j # js) else 0)"
    by simp
  moreover have "processedCount b' = processedCount b + length (j # js)"
    using n n1 by simp
  ultimately show ?case
    using r h step by simp
qed

lemma good_job_resolves:
  "\<not> executor_throws good_job \<and>
   (\<forall>h. resolved (session_run h (job_video good_job) (job_events good_job) new_session))"
  by (simp add: good_job_def session_run_def processNextFrame_def
      onResults_def onended_def new_session_def Let_def)

lemma batch_mounted_fields:
  "holisticRef batch_mounted = Some 0" "closed batch_mounted = []"
  "processedCount batch_mounted = 0" "created batch_mounted = 1"
  "handles_used batch_mounted = []"
  by (simp_all add: batch_mounted_def createHolisticInstance_def)

lemma startProcessing_recycles:
  assumes "\<forall>j \<in> set js. \<not> executor_throws j \<and> (\<forall>h. resolved (session_run h (job_video j) (job_events j) new_session))"
    and "holisticRef b \<noteq> None"
  shows "\<exists>b'. startProcessing js b = Some b' \<and>
           recycles b' =
             recycles b +
             (if processedCount b > 0 \<and> processedCount b mod 20 = 0 then length js else 0) \<and>
           processedCount b' = length js \<and> holisticRef b' \<noteq> None"
proof -
  let ?b0 = "b\<lparr>batch_isProcessing := True, processedCount := 0\<rparr>"
  have "holisticRef ?b0 \<noteq> None" using assms(2) by simp
  from startProcessing_loop_recycles [OF assms(1) this, of "processedCount b"]
  show ?thesis by (simp add: startProcessing_def recycles_def)
qed

text \<open>
  Claim C4 asks for \<open>floor (M / 20)\<close> recycles in a run of \<open>M\<close> jobs without errors and
  one more per fatal engine error. The loop tests the count captured at the click, so
  the code does otherwise: a first run of 21 good videos recycles never; a run of 3
  good videos started after a run of 20 recycles before each of them; and a run in
  which a send throws recycles never, since the session resolves its promise and the
  \<open>catch\<close> of the loop is not entered.
\<close>

theorem C4_recycle_count_evaluated:
  "map_option recycles (startProcessing (replicate 21 good_job) batch_mounted) = Some 0 \<and>
   map_option processedCount (startProcessing (replicate 21 good_job) batch_mounted) = Some 21 \<and>
   Option.bind (startProcessing (replicate 20 good_job) batch_mounted)
     (\<lambda>b. map_option recycles (startProcessing (replicate 3 good_job) b)) = Some 3 \<and>
   map_option recycles (startProcessing [good_job, crash_job, good_job] batch_mounted) = Some 0"
proof -
  have all: "\<forall>j \<in> set (replicate n good_job). \<not> executor_throws j \<and> (\<forall>h. resolved (session_run h (job_video j) (job_events j) new_session))" for n
    by (simp add: good_job_resolves)
  have m: "holisticRef batch_mounted \<noteq> None"
    by (simp add: batch_mounted_fields)
  from startProcessing_recycles [OF all m, of 21]
  have first: "map_option recycles (startProcessing (replicate 21 good_job) batch_mounted) = Some 0"
    "map_option processedCount (startProcessing (replicate 21 good_job) batch_mounted) = Some 21"
    by (auto simp add: batch_mounted_fields recycles_def)
  from startProcessing_recycles [OF all m, of 20] obtain b1 where
    b1: "startProcessing (replicate 20 good_job) batch_mounted = Some b1"
    and r1: "recycles b1 = 0" and n1: "processedCount b1 = 20" and h1: "holisticRef b1 \<noteq> None"
    by (auto simp add: batch_mounted_fields recycles_def)
  from startProcessing_recycles [OF all h1, of 3] r1 n1
  have second: "map_option recycles (startProcessing (replicate 3 good_job) b1) = Some 3"
    by auto
  have third:
    "map_option recycles (startProcessing [good_job, crash_job, good_job] batch_mounted) = Some 0"
    by (simp add: startProcessing_def batch_mounted_fields processVideoSimple_def
        good_job_def crash_job_def session_run_def processNextFrame_def onResults_def
        onended_def send_catch_def new_session_def recycles_def Let_def)
  show ?thesis
    using first second third by (simp add: b1)
qed

text \<open>
  Claim C6 asks, after a send that throws, for one recycle and a fresh engine handle for
  the next job. The session is aborted as claimed (it is resolved, and later frame
  callbacks send nothing) and the job is not retried, but the code recycles nothing:
  in a run of a crashing video followed by a good one no handle is closed, both jobs
  see handle 0, and handle 0 is still the current one at the end.
\<close>

theorem C6_crash_recovery_evaluated:
  "map_option recycles (startProcessing [crash_job, good_job] batch_mounted) = Some 0 \<and>
   map_option handles_used (startProcessing [crash_job, good_job] batch_mounted) =
     Some [Some 0, Some 0] \<and>
   map_option holisticRef (startProcessing [crash_job, good_job] batch_mounted) = Some (Some 0) \<and>
   map_option processedCount (startProcessing [crash_job, good_job] batch_mounted) = Some 2 \<and>
   sent (session_run (Some 0) sample_video
           [FrameCallback 0, SendThrows, FrameCallback 1, FrameCallback 2] new_session) = [0] \<and>
   resolved (session_run (Some 0) sample_video [FrameCallback 0, SendThrows] new_session)"
  by (simp add: startProcessing_def batch_mounted_fields processVideoSimple_def
      good_job_def crash_job_def session_run_def processNextFrame_def onResults_def
      onended_def send_catch_def new_session_def recycles_def Let_def)

end
